theory Spec2Isabelle
  imports Complex_Main "HOL-Library.Char_ord" "HOL-Library.List_Lexorder" "HOL-Library.Multiset"
begin

section \<open>The Pomodoro session state machine (src/app/page.tsx)\<close>

text \<open>
  The page component keeps three pieces of React state: the settings, the statistics and the
  timer state. Every update of the timer state is a pure updater function
  \<open>prev \<mapsto> next\<close> handed to \<open>setState\<close>; those updater functions are
  embedded here one by one, with the settings of the render that created them as an explicit
  argument.

  Numbers: a JavaScript \<open>number\<close> holding a count of seconds, a counter or a number
  of minutes entered through \<open>SettingField\<close> (which clamps and rounds) is an integer
  and is modelled by \<open>int\<close>. The argument of \<open>minutesToSeconds\<close> is an
  arbitrary \<open>number\<close> and is modelled by \<open>real\<close>, so that the
  \<open>Math.round\<close> of the source is a real rounding.
\<close>

datatype SessionType = work | short_break | long_break

record PomodoroSettings =
  workDuration :: int
  shortBreakDuration :: int
  longBreakDuration :: int
  longBreakInterval :: int
  soundEnabled :: bool
  notificationsEnabled :: bool
  autoStartNext :: bool

record PomodoroState =
  sessionType :: SessionType
  timeLeft :: int
  isRunning :: bool
  pomodorosSinceLongBreak :: int

definition defaultSettings :: PomodoroSettings where
  "defaultSettings =
     \<lparr> workDuration = 25, shortBreakDuration = 5, longBreakDuration = 15,
       longBreakInterval = 4, soundEnabled = True, notificationsEnabled = False,
       autoStartNext = True \<rparr>"

text \<open>\<open>Math.round\<close>: the nearest integer, a tie going up.\<close>

definition Math_round :: "real \<Rightarrow> int" where
  "Math_round x = \<lfloor>x + 1 / 2\<rfloor>"

definition minutesToSeconds :: "real \<Rightarrow> int" where
  "minutesToSeconds minutes = max 0 (Math_round (minutes * 60))"

fun sessionDurationMinutes :: "SessionType \<Rightarrow> PomodoroSettings \<Rightarrow> int" where
  "sessionDurationMinutes work settings = workDuration settings"
| "sessionDurationMinutes short_break settings = shortBreakDuration settings"
| "sessionDurationMinutes long_break settings = longBreakDuration settings"

text \<open>\<open>currentDurationSeconds\<close>: the full length of a phase under the given settings.\<close>

definition currentDurationSeconds :: "SessionType \<Rightarrow> PomodoroSettings \<Rightarrow> int" where
  "currentDurationSeconds type settings =
     minutesToSeconds (of_int (sessionDurationMinutes type settings))"

text \<open>The state the component is created with (\<open>React.useState\<close> initialiser).\<close>

definition initialState :: PomodoroState where
  "initialState =
     \<lparr> sessionType = work,
       timeLeft = minutesToSeconds (of_int (workDuration defaultSettings)),
       isRunning = False,
       pomodorosSinceLongBreak = 0 \<rparr>"

text \<open>The updater inside \<open>handleSessionComplete\<close> (lines 246 to 268).\<close>

definition completeState :: "PomodoroSettings \<Rightarrow> PomodoroState \<Rightarrow> PomodoroState" where
  "completeState settings prev =
     (let (next, count) =
            (if sessionType prev = work then
               (let c = pomodorosSinceLongBreak prev + 1 in
                if c \<ge> longBreakInterval settings then (long_break, 0) else (short_break, c))
             else (work, pomodorosSinceLongBreak prev))
      in \<lparr> sessionType = next,
           timeLeft = currentDurationSeconds next settings,
           isRunning = autoStartNext settings,
           pomodorosSinceLongBreak = count \<rparr>)"

text \<open>The updater run by the one-second interval (lines 304 to 317).\<close>

definition tick :: "PomodoroState \<Rightarrow> PomodoroState" where
  "tick prev =
     (if \<not> isRunning prev then prev
      else if timeLeft prev \<le> 1 then prev\<lparr>timeLeft := 0, isRunning := False\<rparr>
      else prev\<lparr>timeLeft := timeLeft prev - 1\<rparr>)"

text \<open>The updater of the effect that depends on the three durations (lines 343 to 352).\<close>

definition recomputeTimeLeft :: "PomodoroSettings \<Rightarrow> PomodoroState \<Rightarrow> PomodoroState" where
  "recomputeTimeLeft settings prev =
     (if isRunning prev then prev
      else prev\<lparr>timeLeft := currentDurationSeconds (sessionType prev) settings\<rparr>)"

text \<open>
  React runs that effect after a render in which one of its dependencies
  \<open>[workDuration, shortBreakDuration, longBreakDuration]\<close> differs from the previous
  render. \<open>setSettings\<close> followed by that effect is \<open>changeSettings\<close>.
\<close>

definition durationsChanged :: "PomodoroSettings \<Rightarrow> PomodoroSettings \<Rightarrow> bool" where
  "durationsChanged old new \<longleftrightarrow>
     workDuration old \<noteq> workDuration new
     \<or> shortBreakDuration old \<noteq> shortBreakDuration new
     \<or> longBreakDuration old \<noteq> longBreakDuration new"

definition changeSettings ::
  "PomodoroSettings \<Rightarrow> PomodoroSettings \<times> PomodoroState \<Rightarrow> PomodoroSettings \<times> PomodoroState"
where
  "changeSettings new = (\<lambda>(old, st).
     (new, if durationsChanged old new then recomputeTimeLeft new st else st))"

definition toggleRunning :: "PomodoroSettings \<Rightarrow> PomodoroState \<Rightarrow> PomodoroState" where
  "toggleRunning settings prev =
     (let nextRunning = \<not> isRunning prev in
      if timeLeft prev = 0 \<and> nextRunning then
        prev\<lparr>timeLeft := currentDurationSeconds (sessionType prev) settings,
             isRunning := nextRunning\<rparr>
      else prev\<lparr>isRunning := nextRunning\<rparr>)"

definition resetTimer :: "PomodoroSettings \<Rightarrow> PomodoroState" where
  "resetTimer settings =
     \<lparr> sessionType = work,
       timeLeft = minutesToSeconds (of_int (workDuration settings)),
       isRunning = False,
       pomodorosSinceLongBreak = 0 \<rparr>"

text \<open>Repeating an updater: \<open>n\<close> ticks, \<open>n\<close> completions.\<close>

fun ticks :: "nat \<Rightarrow> PomodoroState \<Rightarrow> PomodoroState" where
  "ticks 0 st = st"
| "ticks (Suc n) st = ticks n (tick st)"

fun completions :: "PomodoroSettings \<Rightarrow> nat \<Rightarrow> PomodoroState \<Rightarrow> PomodoroState list" where
  "completions settings 0 st = [st]"
| "completions settings (Suc n) st = st # completions settings n (completeState settings st)"

subsection \<open>The machine as a whole\<close>

text \<open>
  The events that change the timer state: the interval callback, \<open>handleSessionComplete\<close>,
  the start/pause button, the reset button and saving the settings dialog. The system state
  is the pair of the current settings and the timer state. After the first render React runs
  every effect once, so the effect of \<open>recomputeTimeLeft\<close> has been applied to
  \<open>initialState\<close> with the stored settings before any event arrives: \<open>mount\<close>.
\<close>

datatype Op = Tick | Complete | Toggle | Reset | ChangeSettings PomodoroSettings

type_synonym System = "PomodoroSettings \<times> PomodoroState"

definition mount :: "PomodoroSettings \<Rightarrow> System" where
  "mount settings = (settings, recomputeTimeLeft settings initialState)"

fun step :: "Op \<Rightarrow> System \<Rightarrow> System" where
  "step Tick (s, st) = (s, tick st)"
| "step Complete (s, st) = (s, completeState s st)"
| "step Toggle (s, st) = (s, toggleRunning s st)"
| "step Reset (s, st) = (s, resetTimer s)"
| "step (ChangeSettings new) (s, st) = changeSettings new (s, st)"

fun run :: "Op list \<Rightarrow> System \<Rightarrow> System" where
  "run [] sys = sys"
| "run (op # ops) sys = run ops (step op sys)"

text \<open>
  What \<open>SettingField\<close> lets through: each duration is clamped to
  \<open>DURATION_LIMITS\<close> and rounded, the interval is at least 1.
\<close>

definition validSettings :: "PomodoroSettings \<Rightarrow> bool" where
  "validSettings s \<longleftrightarrow>
     1 \<le> workDuration s \<and> workDuration s \<le> 180
     \<and> 1 \<le> shortBreakDuration s \<and> shortBreakDuration s \<le> 180
     \<and> 1 \<le> longBreakDuration s \<and> longBreakDuration s \<le> 180
     \<and> 1 \<le> longBreakInterval s"

fun validOp :: "Op \<Rightarrow> bool" where
  "validOp (ChangeSettings new) = validSettings new"
| "validOp _ = True"

text \<open>
  Two things that the events determine and the timer state does not store. \<open>lastFull\<close>
  is the full length to which the time left was last set: by \<open>mount\<close>, by a completion, by
  a reset, by a start from 0 seconds and by a change of the durations while paused.
  \<open>shortened\<close> says whether a change of the settings that arrived while the timer ran has
  left the current phase shorter than that length.
\<close>

fun lastFull :: "Op \<Rightarrow> System \<Rightarrow> int \<Rightarrow> int" where
  "lastFull Tick (s, st) full = full"
| "lastFull Complete (s, st) full = currentDurationSeconds (sessionType (completeState s st)) s"
| "lastFull Toggle (s, st) full =
     (if timeLeft st = 0 \<and> \<not> isRunning st then currentDurationSeconds (sessionType st) s
      else full)"
| "lastFull Reset (s, st) full = currentDurationSeconds work s"
| "lastFull (ChangeSettings new) (s, st) full =
     (if \<not> isRunning st \<and> durationsChanged s new
      then currentDurationSeconds (sessionType st) new else full)"

fun shortened :: "Op \<Rightarrow> System \<Rightarrow> int \<Rightarrow> bool \<Rightarrow> bool" where
  "shortened Tick (s, st) full b = b"
| "shortened Complete (s, st) full b = False"
| "shortened Toggle (s, st) full b = (if timeLeft st = 0 \<and> \<not> isRunning st then False else b)"
| "shortened Reset (s, st) full b = False"
| "shortened (ChangeSettings new) (s, st) full b =
     (if isRunning st then currentDurationSeconds (sessionType st) new < full
      else if durationsChanged s new then False else b)"

fun track :: "Op list \<Rightarrow> System \<Rightarrow> int \<times> bool \<Rightarrow> int \<times> bool" where
  "track [] sys g = g"
| "track (op # ops) sys (full, b) =
     track ops (step op sys) (lastFull op sys full, shortened op sys full b)"

definition lastFullAfter :: "Op list \<Rightarrow> PomodoroSettings \<Rightarrow> int" where
  "lastFullAfter ops s0 = fst (track ops (mount s0) (currentDurationSeconds work s0, False))"

definition shortenedAfter :: "Op list \<Rightarrow> PomodoroSettings \<Rightarrow> bool" where
  "shortenedAfter ops s0 = snd (track ops (mount s0) (currentDurationSeconds work s0, False))"

definition zeroMeansPaused :: "System \<Rightarrow> bool" where
  "zeroMeansPaused = (\<lambda>(s, st).
     validSettings s \<and> 0 \<le> timeLeft st \<and> (timeLeft st = 0 \<longrightarrow> \<not> isRunning st))"

definition tracked :: "System \<Rightarrow> int \<times> bool \<Rightarrow> bool" where
  "tracked = (\<lambda>(s, st) (full, b).
     timeLeft st \<le> full \<and> (\<not> b \<longrightarrow> full \<le> currentDurationSeconds (sessionType st) s))"

section \<open>Statistics (src/app/page.tsx, lib/utils)\<close>

text \<open>
  \<open>byDay\<close> is a JavaScript object used as a dictionary from day keys to counts. Its own
  keys are distinct and \<open>Object.entries\<close> lists them in insertion order, so it is an
  association list here; \<open>stats[key]\<close> is \<open>map_of\<close>. A count is only ever written
  by \<open>completeStats\<close> as an old count plus one, so it is a natural number.
\<close>

record SessionLog =
  logId :: string
  logType :: SessionType
  completedAt :: string
  durationMinutes :: int

record PomodoroStats =
  byDay :: "(string \<times> nat) list"
  history :: "SessionLog list"

definition defaultStats :: PomodoroStats where
  "defaultStats = \<lparr> byDay = [], history = [] \<rparr>"

text \<open>\<open>stats[key] ?? 0\<close>\<close>

definition countOr0 :: "(string \<times> nat) list \<Rightarrow> string \<Rightarrow> nat" where
  "countOr0 stats k = (case map_of stats k of None \<Rightarrow> 0 | Some v \<Rightarrow> v)"

text \<open>
  \<open>{...obj, [key]: v}\<close>: a key that is present keeps its place and gets the new value, a new
  key goes to the end.
\<close>

fun assign :: "string \<Rightarrow> nat \<Rightarrow> (string \<times> nat) list \<Rightarrow> (string \<times> nat) list" where
  "assign k v [] = [(k, v)]"
| "assign k v ((k', v') # rest) = (if k' = k then (k, v) # rest else (k', v') # assign k v rest)"

text \<open>
  The updater handed to \<open>setStats\<close> in \<open>handleSessionComplete\<close> (lines 271 to 294).
  What it reads from the host is passed in: \<open>key\<close> is \<open>todayKey()\<close>, \<open>newId\<close> the
  random identifier and \<open>now\<close> is \<open>new Date().toISOString()\<close>.
\<close>

definition completeStats ::
  "string \<Rightarrow> string \<Rightarrow> string \<Rightarrow> PomodoroSettings \<Rightarrow> PomodoroStats \<Rightarrow> PomodoroStats"
where
  "completeStats key newId now settings prev =
     (let result = countOr0 (byDay prev) key + 1;
          newHistory = take 50
            (\<lparr> logId = newId, logType = work, completedAt = now,
                durationMinutes = sessionDurationMinutes work settings \<rparr> # history prev)
      in \<lparr> byDay = assign key result (byDay prev), history = newHistory \<rparr>)"

text \<open>Several calls of that updater in a row, each with its own key, identifier and time.\<close>

fun completeStatsAll ::
  "(string \<times> string \<times> string) list \<Rightarrow> PomodoroSettings \<Rightarrow> PomodoroStats \<Rightarrow> PomodoroStats"
where
  "completeStatsAll [] settings stats = stats"
| "completeStatsAll ((key, newId, now) # rest) settings stats =
     completeStatsAll rest settings (completeStats key newId now settings stats)"

text \<open>
  The updater that \<open>handleSessionComplete\<close> hands to \<open>setState\<close> (lines 246 to 268) also
  assigns the two variables of the enclosing call: \<open>completedWorkSession\<close> becomes true in
  the work branch and \<open>nextSession\<close> becomes the next phase. \<open>completeUpdater\<close> returns the
  next state together with the values of the two variables after the updater has run.
\<close>

definition completeUpdater ::
  "PomodoroSettings \<Rightarrow> PomodoroState \<Rightarrow> bool \<Rightarrow> PomodoroState \<times> bool \<times> SessionType"
where
  "completeUpdater settings prev completedWorkSession =
     (completeState settings prev,
      (if sessionType prev = work then True else completedWorkSession),
      sessionType (completeState settings prev))"

text \<open>
  \<open>handleSessionComplete\<close> (lines 243 to 299). \<open>setState\<close> does not call the updater: it
  puts it in the queue of the component, and React calls it when it renders the component
  the next time, after \<open>handleSessionComplete\<close> has returned. So line 270 reads
  \<open>completedWorkSession\<close> and line 298 reads \<open>nextSession\<close> with the values they were
  declared with. The result is the timer state after that render, the statistics, and the
  phase passed to \<open>sendNotification\<close>.
\<close>

definition handleSessionComplete ::
  "string \<Rightarrow> string \<Rightarrow> string \<Rightarrow> PomodoroSettings \<Rightarrow> PomodoroState \<times> PomodoroStats
     \<Rightarrow> PomodoroState \<times> PomodoroStats \<times> SessionType"
where
  "handleSessionComplete key newId now settings = (\<lambda>(st, stats).
     (let completedWorkSession = False;
          nextSession = work;
          stats' = (if completedWorkSession then completeStats key newId now settings stats
                    else stats);
          notified = nextSession;
          (st', completedWorkSession', nextSession') =
            completeUpdater settings st completedWorkSession
      in (st', stats', notified)))"

subsection \<open>Dates\<close>

text \<open>
  A JavaScript \<open>Date\<close> holds a time value: a whole number of milliseconds since the epoch
  of at most \<open>8.64e15\<close> in absolute value, or \<open>NaN\<close> (an invalid date), which is
  \<open>None\<close> here. Every operation that computes a time value passes it through
  \<open>TimeClip\<close>.

  Local time is the host's business. The language standard describes the host by the
  function \<open>LocalTZA(t, isUTC)\<close>: the offset of local time from UTC in milliseconds, for the
  instant \<open>t\<close> when \<open>isUTC\<close> is true and for the local time value \<open>t\<close> when it is
  false (for a local time that a clock change skips, the offset before the change). That
  function is the parameter \<open>tz\<close> of everything below.
\<close>

datatype error = RangeError

type_synonym Date = "int option"

type_synonym Host = "int \<Rightarrow> bool \<Rightarrow> int"

definition msPerDay :: int where
  "msPerDay = 86400000"

definition maxTime :: int where
  "maxTime = 8640000000000000"

definition TimeClip :: "int \<Rightarrow> Date" where
  "TimeClip t = (if \<bar>t\<bar> \<le> maxTime then Some t else None)"

definition LocalTime :: "Host \<Rightarrow> int \<Rightarrow> int" where
  "LocalTime tz t = t + tz t True"

definition UTC :: "Host \<Rightarrow> int \<Rightarrow> int" where
  "UTC tz t = t - tz t False"

text \<open>\<open>d.setHours(0, 0, 0, 0)\<close>: midnight, local time, of the local day of \<open>d\<close>.\<close>

definition setHours0 :: "Host \<Rightarrow> Date \<Rightarrow> Date" where
  "setHours0 tz d =
     (case d of None \<Rightarrow> None
      | Some t \<Rightarrow> TimeClip (UTC tz (LocalTime tz t div msPerDay * msPerDay)))"

text \<open>
  \<open>d.setDate(d.getDate() + k)\<close>. \<open>getDate\<close> is the day of the month of the local time
  of \<open>d\<close>; \<open>setDate\<close> builds a local time from the day number of the first of that month
  plus the given day of the month minus one, and from the time within the day of the old
  local time, and converts it to UTC. With the day of the month that \<open>getDate\<close> returned
  plus \<open>k\<close>, the new local time is the old one plus \<open>k\<close> days.
\<close>

definition shiftDate :: "Host \<Rightarrow> Date \<Rightarrow> int \<Rightarrow> Date" where
  "shiftDate tz d k =
     (case d of None \<Rightarrow> None
      | Some t \<Rightarrow> TimeClip (UTC tz (LocalTime tz t + k * msPerDay)))"

text \<open>
  Hosts to run the functions on, from the time zone database. \<open>utc\<close> and \<open>tokyo\<close> have had
  one offset since long before 2024. \<open>london\<close> is Europe/London between the clock changes of
  October 2023 and October 2024: summer time starts at 2024-03-31T01:00Z and the local times
  from 01:00 to 02:00 of that day are skipped. \<open>apia\<close> is Pacific/Apia between the clock
  changes of September 2011 and April 2012: at 2011-12-30T10:00Z the zone moved from ten
  hours behind UTC to fourteen hours ahead, so that local 2011-12-29 was followed by local
  2011-12-31 and the whole local day 2011-12-30 is skipped.
\<close>

definition utc :: Host where
  "utc t isUTC = 0"

definition tokyo :: Host where
  "tokyo t isUTC = 32400000"

definition london :: Host where
  "london t isUTC =
     (if isUTC then (if t < 1711846800000 then 0 else 3600000)
      else (if t < 1711846800000 + 3600000 then 0 else 3600000))"

definition apia :: Host where
  "apia t isUTC =
     (if isUTC then (if t < 1325239200000 then - 36000000 else 50400000)
      else (if t < 1325239200000 + 50400000 then - 36000000 else 50400000))"

text \<open>Decimal digits, \<open>String(n)\<close> and \<open>padStart\<close> with zeros.\<close>

definition digitChar :: "nat \<Rightarrow> char" where
  "digitChar n = ''0123456789'' ! n"

fun showNat :: "nat \<Rightarrow> string" where
  "showNat n = (if n < 10 then [digitChar n] else showNat (n div 10) @ [digitChar (n mod 10)])"

declare showNat.simps [simp del]

definition padStart0 :: "nat \<Rightarrow> string \<Rightarrow> string" where
  "padStart0 w s = replicate (w - length s) (CHR ''0'') @ s"

text \<open>
  Year, month (1 to 12) and day of the month of a day number counted from 1970-01-01, in the
  proleptic Gregorian calendar that \<open>YearFromTime\<close>, \<open>MonthFromTime\<close> and
  \<open>DateFromTime\<close> of the language standard describe.
\<close>

definition civilFromDays :: "int \<Rightarrow> int \<times> int \<times> int" where
  "civilFromDays days =
     (let z = days + 719468;
          era = z div 146097;
          doe = z mod 146097;
          yoe = (doe - doe div 1460 + doe div 36524 - doe div 146096) div 365;
          doy = doe - (365 * yoe + yoe div 4 - yoe div 100);
          mp = (5 * doy + 2) div 153;
          d = doy - (153 * mp + 2) div 5 + 1;
          m = (if mp < 10 then mp + 3 else mp - 9);
          y = yoe + era * 400 + (if m \<le> 2 then 1 else 0)
      in (y, m, d))"

text \<open>The year of the ISO format: four digits, or a sign and six digits outside 0 to 9999.\<close>

definition isoYear :: "int \<Rightarrow> string" where
  "isoYear y =
     (if 0 \<le> y \<and> y \<le> 9999 then padStart0 4 (showNat (nat y))
      else (if y < 0 then ''-'' else ''+'') @ padStart0 6 (showNat (nat \<bar>y\<bar>)))"

definition isoDate :: "int \<Rightarrow> string" where
  "isoDate days =
     (case civilFromDays days of (y, m, d) \<Rightarrow>
        isoYear y @ ''-'' @ padStart0 2 (showNat (nat m)) @ ''-'' @ padStart0 2 (showNat (nat d)))"

definition isoTime :: "int \<Rightarrow> string" where
  "isoTime ms =
     padStart0 2 (showNat (nat (ms div 3600000))) @ '':''
     @ padStart0 2 (showNat (nat (ms div 60000 mod 60))) @ '':''
     @ padStart0 2 (showNat (nat (ms div 1000 mod 60))) @ ''.''
     @ padStart0 3 (showNat (nat (ms mod 1000)))"

text \<open>\<open>toISOString\<close> prints the time value in UTC; it throws a \<open>RangeError\<close> on an invalid date.\<close>

definition toISOString :: "Date \<Rightarrow> error + string" where
  "toISOString d =
     (case d of None \<Rightarrow> Inl RangeError
      | Some t \<Rightarrow> Inr (isoDate (t div msPerDay) @ ''T'' @ isoTime (t mod msPerDay) @ ''Z''))"

text \<open>\<open>s.split("T")[0]\<close>: what comes before the first \<open>T\<close>.\<close>

definition beforeT :: "string \<Rightarrow> string" where
  "beforeT s = takeWhile (\<lambda>c. c \<noteq> CHR ''T'') s"

text \<open>
  \<open>todayKey\<close>: the date part of the ISO string of the local midnight. \<open>toISOString\<close>
  prints in UTC, so the key is the UTC calendar date on which the local midnight falls.
\<close>

definition todayKey :: "Host \<Rightarrow> Date \<Rightarrow> error + string" where
  "todayKey tz date =
     (let copy = setHours0 tz date
      in case toISOString copy of Inl e \<Rightarrow> Inl e | Inr s \<Rightarrow> Inr (beforeT s))"

text \<open>
  The day key in the words of the specification, to compare \<open>todayKey\<close> with: the
  calendar date of the local time of an instant (what \<open>getFullYear\<close>, \<open>getMonth\<close>
  and \<open>getDate\<close> give), in the same format. Nothing of the program is defined through
  it.
\<close>

definition localCalendarDate :: "Host \<Rightarrow> int \<Rightarrow> string" where
  "localCalendarDate tz t = isoDate (LocalTime tz t div msPerDay)"

subsection \<open>Weekly series and streak (lib/utils)\<close>

record WeekPoint =
  key :: string
  label :: string
  "value" :: nat

text \<open>
  The loop of \<open>getWeekSeries\<close>, from \<open>i\<close> down to 0. The weekday label comes from the
  host's locale (\<open>toLocaleDateString\<close>) and is a parameter.
\<close>

fun weekLoop ::
  "Host \<Rightarrow> (Date \<Rightarrow> string) \<Rightarrow> (string \<times> nat) list \<Rightarrow> Date \<Rightarrow> nat \<Rightarrow> WeekPoint list
     \<Rightarrow> error + WeekPoint list"
where
  "weekLoop tz weekday stats end 0 data =
     (let date = shiftDate tz end (- int 0) in
      case todayKey tz date of
        Inl e \<Rightarrow> Inl e
      | Inr k \<Rightarrow> Inr (data @ [\<lparr> key = k, label = weekday date, value = countOr0 stats k \<rparr>]))"
| "weekLoop tz weekday stats end (Suc i) data =
     (let date = shiftDate tz end (- int (Suc i)) in
      case todayKey tz date of
        Inl e \<Rightarrow> Inl e
      | Inr k \<Rightarrow> weekLoop tz weekday stats end i
          (data @ [\<lparr> key = k, label = weekday date, value = countOr0 stats k \<rparr>]))"

definition getWeekSeries ::
  "Host \<Rightarrow> (Date \<Rightarrow> string) \<Rightarrow> (string \<times> nat) list \<Rightarrow> Date \<Rightarrow> error + WeekPoint list"
where
  "getWeekSeries tz weekday stats endDate =
     weekLoop tz weekday stats (setHours0 tz endDate) 6 []"

text \<open>\<open>!stats[key]\<close>: a missing entry and a zero count are falsy.\<close>

fun falsy :: "nat option \<Rightarrow> bool" where
  "falsy None = True"
| "falsy (Some n) = (n = 0)"

text \<open>
  The \<open>while (true)\<close> loop of \<open>calculateStreak\<close>. Nothing in the loop bounds the number of
  rounds, so the result is an option: \<open>None\<close> stands for a loop that never ends.
\<close>

partial_function (option) streakLoop ::
  "Host \<Rightarrow> (string \<times> nat) list \<Rightarrow> Date \<Rightarrow> nat \<Rightarrow> (error + nat) option"
where
  "streakLoop tz stats end streak =
     (case todayKey tz end of
        Inl e \<Rightarrow> Some (Inl e)
      | Inr k \<Rightarrow>
          if falsy (map_of stats k) then Some (Inr streak)
          else streakLoop tz stats (shiftDate tz end (- 1)) (streak + 1))"

definition calculateStreak :: "Host \<Rightarrow> (string \<times> nat) list \<Rightarrow> Date \<Rightarrow> (error + nat) option" where
  "calculateStreak tz stats reference = streakLoop tz stats (setHours0 tz reference) 0"

text \<open>A weekday label function to run \<open>getWeekSeries\<close> with.\<close>

definition plainLabel :: "Date \<Rightarrow> string" where
  "plainLabel d = ''day''"

text \<open>The characters a day key is made of.\<close>

definition isDigit :: "char \<Rightarrow> bool" where
  "isDigit c \<longleftrightarrow> 48 \<le> (of_char c :: nat) \<and> (of_char c :: nat) \<le> 57"

definition isKeyChar :: "char \<Rightarrow> bool" where
  "isKeyChar c \<longleftrightarrow> isDigit c \<or> c = CHR ''-'' \<or> c = CHR ''+''"

text \<open>The statistics of the streak scenario.\<close>

definition exampleStats :: "(string \<times> nat) list" where
  "exampleStats = [(''2024-01-01'', 2), (''2024-01-02'', 1), (''2024-01-03'', 0)]"

subsection \<open>CSV export (src/app/page.tsx)\<close>

text \<open>
  \<open>a.localeCompare(b)\<close> is the collation of the host's locale: a parameter
  \<open>localeCompare\<close> of what follows. \<open>Array.prototype.sort\<close> is stable; a stable insertion
  sort gives the same result as any other stable sort whenever the comparator is a total
  order of the keys at hand.
\<close>

type_synonym Collation = "string \<Rightarrow> string \<Rightarrow> int"

fun insertEntry ::
  "Collation \<Rightarrow> string \<times> nat \<Rightarrow> (string \<times> nat) list \<Rightarrow> (string \<times> nat) list"
where
  "insertEntry localeCompare x [] = [x]"
| "insertEntry localeCompare x (y # ys) =
     (if localeCompare (fst x) (fst y) \<le> 0 then x # y # ys
      else y # insertEntry localeCompare x ys)"

definition sortEntries :: "Collation \<Rightarrow> (string \<times> nat) list \<Rightarrow> (string \<times> nat) list" where
  "sortEntries localeCompare xs = foldr (insertEntry localeCompare) xs []"

text \<open>\<open>parts.join(sep)\<close>\<close>

fun joinWith :: "string \<Rightarrow> string list \<Rightarrow> string" where
  "joinWith sep [] = []"
| "joinWith sep [p] = p"
| "joinWith sep (p # q # ps) = p @ sep @ joinWith sep (q # ps)"

definition newline :: char where
  "newline = CHR 0x0A"

definition row :: "string \<times> nat \<Rightarrow> string" where
  "row = (\<lambda>(date, count). date @ '','' @ showNat count)"

definition createCsv :: "Collation \<Rightarrow> PomodoroStats \<Rightarrow> string" where
  "createCsv localeCompare stats =
     (let headers = [''Date'', ''Pomodoros Completed''];
          rows = map row (sortEntries localeCompare (byDay stats))
      in joinWith [newline] (joinWith '','' headers # rows))"

text \<open>
  A day key with a year of four digits: ten characters, digits but for the hyphens in the
  fifth and the eighth place. On such keys a collation compares like the character codes:
  two of them differ first in a digit.
\<close>

definition isDayKey :: "string \<Rightarrow> bool" where
  "isDayKey k \<longleftrightarrow> map (\<lambda>c. if isDigit c then CHR ''9'' else c) k = ''9999-99-99''"

definition collatesDayKeys :: "Collation \<Rightarrow> bool" where
  "collatesDayKeys localeCompare \<longleftrightarrow>
     (\<forall>a b. isDayKey a \<and> isDayKey b \<longrightarrow> (localeCompare a b \<le> 0 \<longleftrightarrow> a \<le> b))"

text \<open>The comparison by character codes, a collation of that kind.\<close>

definition codeUnitCompare :: Collation where
  "codeUnitCompare a b = (if a < b then - 1 else if b < a then 1 else 0)"

text \<open>
  Reading the export back, to state that no count is lost: the lines after the header, each
  split at its first comma, the count read as a decimal number.
\<close>

fun splitOn :: "char \<Rightarrow> string \<Rightarrow> string list" where
  "splitOn sep [] = [[]]"
| "splitOn sep (c # cs) =
     (if c = sep then [] # splitOn sep cs
      else (case splitOn sep cs of [] \<Rightarrow> [[c]] | l # ls \<Rightarrow> (c # l) # ls))"

definition readNat :: "string \<Rightarrow> nat" where
  "readNat s = foldl (\<lambda>n c. 10 * n + (of_char c - 48)) 0 s"

definition readRow :: "string \<Rightarrow> string \<times> nat" where
  "readRow r =
     (takeWhile (\<lambda>c. c \<noteq> CHR '','') r, readNat (drop 1 (dropWhile (\<lambda>c. c \<noteq> CHR '','') r)))"

definition readCsv :: "string \<Rightarrow> (string \<times> nat) list" where
  "readCsv s = map readRow (tl (splitOn newline s))"

text \<open>A key that can be a field of a line: it holds neither a comma nor a line break.\<close>

definition plainKey :: "string \<Rightarrow> bool" where
  "plainKey k \<longleftrightarrow> CHR '','' \<notin> set k \<and> newline \<notin> set k"

section \<open>Verification: the session state machine\<close>

lemma Math_round_of_int: "Math_round (of_int m * 60) = m * 60"
  unfolding Math_round_def by linarith

lemma minutesToSeconds_of_int: "minutesToSeconds (of_int m) = max 0 (m * 60)"
  by (simp add: minutesToSeconds_def Math_round_of_int)

lemma currentDurationSeconds_eq:
  "currentDurationSeconds type settings = max 0 (sessionDurationMinutes type settings * 60)"
  by (simp add: currentDurationSeconds_def minutesToSeconds_of_int)

text \<open>
  Claim C8. For every whole number of minutes from 1 to 180, \<open>minutesToSeconds\<close> is
  exactly sixty times the minutes; for a negative input the result is zero, in particular
  \<open>minutesToSeconds(-5) = 0\<close>.
\<close>

theorem minutesToSeconds_exact:
  "(\<forall>m::int. 1 \<le> m \<and> m \<le> 180 \<longrightarrow> minutesToSeconds (of_int m) = m * 60)
   \<and> (\<forall>x::real. x < 0 \<longrightarrow> minutesToSeconds x = 0)
   \<and> minutesToSeconds (- 5) = 0"
proof (intro conjI allI impI)
  fix m :: int assume "1 \<le> m \<and> m \<le> 180"
  then show "minutesToSeconds (of_int m) = m * 60"
    by (simp add: minutesToSeconds_of_int)
next
  fix x :: real assume "x < 0"
  then have "x * 60 + 1 / 2 < 1" by simp
  then have "\<lfloor>x * 60 + 1 / 2\<rfloor> \<le> 0" by linarith
  then show "minutesToSeconds x = 0"
    by (simp add: minutesToSeconds_def Math_round_def)
next
  show "minutesToSeconds (- 5) = 0"
    by (simp add: minutesToSeconds_def Math_round_def)
qed

theorem minutesToSeconds_exact_witness:
  "minutesToSeconds (of_int 180) = 10800 \<and> minutesToSeconds (- 7 / 2) = 0"
proof -
  have a: "minutesToSeconds (of_int 180) = 180 * 60"
    using minutesToSeconds_exact [THEN conjunct1, rule_format, of 180] by simp
  have b: "minutesToSeconds (- 7 / 2) = 0"
    using minutesToSeconds_exact [THEN conjunct2, THEN conjunct1, rule_format, of "- 7 / 2"] by simp
  from a b show ?thesis by simp
qed

text \<open>
  Claim C1. When a phase completes: after a work phase the counter of work sessions goes up
  by one and, if the new count has reached \<open>longBreakInterval\<close>, the next phase is the
  long break and the counter is 0 again, otherwise the next phase is the short break; after
  either break the next phase is work and the counter is unchanged. The time left is the
  full length of the next phase in seconds (sixty times \<open>longBreakDuration\<close>,
  \<open>shortBreakDuration\<close> or \<open>workDuration\<close>, whichever phase is next) and the timer
  runs iff \<open>autoStartNext\<close> is set. With an interval of 4, eight completions from a work
  phase with counter 0 pass through work, short break, work, short break, work, short break,
  work, long break, work, each with the full length of its own phase.
\<close>

theorem completeState_policy:
  "(sessionType prev = work \<and> longBreakInterval settings \<le> pomodorosSinceLongBreak prev + 1 \<longrightarrow>
      sessionType (completeState settings prev) = long_break
      \<and> pomodorosSinceLongBreak (completeState settings prev) = 0
      \<and> timeLeft (completeState settings prev)
          = minutesToSeconds (of_int (longBreakDuration settings))
      \<and> timeLeft (completeState settings prev) = max 0 (longBreakDuration settings * 60))
   \<and> (sessionType prev = work \<and> pomodorosSinceLongBreak prev + 1 < longBreakInterval settings \<longrightarrow>
      sessionType (completeState settings prev) = short_break
      \<and> pomodorosSinceLongBreak (completeState settings prev) = pomodorosSinceLongBreak prev + 1
      \<and> timeLeft (completeState settings prev)
          = minutesToSeconds (of_int (shortBreakDuration settings))
      \<and> timeLeft (completeState settings prev) = max 0 (shortBreakDuration settings * 60))
   \<and> (sessionType prev \<noteq> work \<longrightarrow>
      sessionType (completeState settings prev) = work
      \<and> pomodorosSinceLongBreak (completeState settings prev) = pomodorosSinceLongBreak prev
      \<and> timeLeft (completeState settings prev)
          = minutesToSeconds (of_int (workDuration settings))
      \<and> timeLeft (completeState settings prev) = max 0 (workDuration settings * 60))
   \<and> isRunning (completeState settings prev) = autoStartNext settings
   \<and> (longBreakInterval settings = 4 \<and> sessionType prev = work \<and> pomodorosSinceLongBreak prev = 0 \<longrightarrow>
      map sessionType (completions settings 8 prev) =
        [work, short_break, work, short_break, work, short_break, work, long_break, work]
      \<and> map pomodorosSinceLongBreak (completions settings 8 prev) = [0, 1, 1, 2, 2, 3, 3, 0, 0]
      \<and> map timeLeft (tl (completions settings 8 prev)) =
        [max 0 (shortBreakDuration settings * 60), max 0 (workDuration settings * 60),
         max 0 (shortBreakDuration settings * 60), max 0 (workDuration settings * 60),
         max 0 (shortBreakDuration settings * 60), max 0 (workDuration settings * 60),
         max 0 (longBreakDuration settings * 60), max 0 (workDuration settings * 60)])"
  apply (intro conjI impI)
  apply (auto simp: completeState_def Let_def currentDurationSeconds_def minutesToSeconds_of_int
      eval_nat_numeral)
  done

theorem completeState_policy_witness:
  "completeState defaultSettings (initialState\<lparr>pomodorosSinceLongBreak := 3\<rparr>)
     = \<lparr> sessionType = long_break, timeLeft = 900, isRunning = True, pomodorosSinceLongBreak = 0 \<rparr>
   \<and> completeState defaultSettings initialState
     = \<lparr> sessionType = short_break, timeLeft = 300, isRunning = True, pomodorosSinceLongBreak = 1 \<rparr>
   \<and> completeState defaultSettings (initialState\<lparr>sessionType := long_break, timeLeft := 0\<rparr>)
     = \<lparr> sessionType = work, timeLeft = 1500, isRunning = True, pomodorosSinceLongBreak = 0 \<rparr>
   \<and> map sessionType (completions defaultSettings 8 initialState) =
     [work, short_break, work, short_break, work, short_break, work, long_break, work]
   \<and> map timeLeft (completions defaultSettings 8 initialState) =
     [1500, 300, 1500, 300, 1500, 300, 1500, 900, 1500]"
proof -
  have i: "sessionType initialState = work" "pomodorosSinceLongBreak initialState = 0"
    "timeLeft initialState = 1500" "isRunning initialState = False"
    by (simp_all add: initialState_def defaultSettings_def minutesToSeconds_def Math_round_def)
  have d: "longBreakInterval defaultSettings = 4" "workDuration defaultSettings = 25"
    "shortBreakDuration defaultSettings = 5" "longBreakDuration defaultSettings = 15"
    "autoStartNext defaultSettings = True"
    by (simp_all add: defaultSettings_def)
  have c: "completions defaultSettings 8 initialState
      = initialState # tl (completions defaultSettings 8 initialState)"
    by (simp add: eval_nat_numeral)
  note a = completeState_policy [of "initialState\<lparr>pomodorosSinceLongBreak := 3\<rparr>" defaultSettings]
  note b = completeState_policy [of initialState defaultSettings]
  note e = completeState_policy [of "initialState\<lparr>sessionType := long_break, timeLeft := 0\<rparr>" defaultSettings]
  have 1: "completeState defaultSettings (initialState\<lparr>pomodorosSinceLongBreak := 3\<rparr>)
     = \<lparr> sessionType = long_break, timeLeft = 900, isRunning = True, pomodorosSinceLongBreak = 0 \<rparr>"
    using a by (intro PomodoroState.equality) (simp_all add: i d)
  have 2: "completeState defaultSettings initialState
     = \<lparr> sessionType = short_break, timeLeft = 300, isRunning = True, pomodorosSinceLongBreak = 1 \<rparr>"
    using b by (intro PomodoroState.equality) (simp_all add: i d)
  have 3: "completeState defaultSettings (initialState\<lparr>sessionType := long_break, timeLeft := 0\<rparr>)
     = \<lparr> sessionType = work, timeLeft = 1500, isRunning = True, pomodorosSinceLongBreak = 0 \<rparr>"
    using e by (intro PomodoroState.equality) (simp_all add: i d)
  have 4: "map sessionType (completions defaultSettings 8 initialState) =
     [work, short_break, work, short_break, work, short_break, work, long_break, work]"
    using b by (simp add: i d)
  have "map timeLeft (tl (completions defaultSettings 8 initialState)) =
     [300, 1500, 300, 1500, 300, 1500, 900, 1500]"
    using b by (simp add: i d)
  then have 5: "map timeLeft (completions defaultSettings 8 initialState) =
     [1500, 300, 1500, 300, 1500, 300, 1500, 900, 1500]"
    by (subst c) (simp add: i)
  from 1 2 3 4 5 show ?thesis by (intro conjI)
qed

lemma ticks_paused: "\<not> isRunning st \<Longrightarrow> ticks n st = st"
  by (induction n) (simp_all add: tick_def)

lemma ticks_running:
  "isRunning st \<Longrightarrow> int n < timeLeft st \<Longrightarrow> ticks n st = st\<lparr>timeLeft := timeLeft st - int n\<rparr>"
proof (induction n arbitrary: st)
  case 0
  then show ?case by simp
next
  case (Suc n)
  from Suc.prems have t: "tick st = st\<lparr>timeLeft := timeLeft st - 1\<rparr>"
    by (simp add: tick_def)
  have "ticks n (tick st) = (tick st)\<lparr>timeLeft := timeLeft (tick st) - int n\<rparr>"
    using Suc.prems by (intro Suc.IH) (simp_all add: t)
  then show ?case by (simp add: t)
qed

lemma ticks_expired:
  assumes "isRunning st" "0 < timeLeft st" "timeLeft st \<le> int n"
  shows "ticks n st = st\<lparr>timeLeft := 0, isRunning := False\<rparr>"
proof -
  define k where "k = nat (timeLeft st - 1)"
  define r where "r = n - Suc k"
  have n: "n = k + Suc r" and k: "int k < timeLeft st" "timeLeft st - int k = 1"
    using assms by (simp_all add: k_def r_def)
  have add: "ticks (a + b) s = ticks b (ticks a s)" for a b s
    by (induction a arbitrary: s) simp_all
  have "ticks k st = st\<lparr>timeLeft := 1\<rparr>"
    using ticks_running [OF assms(1) k(1)] k(2) by simp
  then have "ticks (Suc r) (ticks k st) = ticks r (tick (st\<lparr>timeLeft := 1\<rparr>))"
    by simp
  with add [of k "Suc r" st]
  have "ticks (k + Suc r) st = ticks r (tick (st\<lparr>timeLeft := 1\<rparr>))"
    by (simp only:)
  also have "tick (st\<lparr>timeLeft := 1\<rparr>) = st\<lparr>timeLeft := 0, isRunning := False\<rparr>"
    using assms(1) by (simp add: tick_def)
  also have "ticks r \<dots> = st\<lparr>timeLeft := 0, isRunning := False\<rparr>"
    by (rule ticks_paused) simp
  finally show ?thesis by (simp add: n)
qed

lemma tick_nonneg: "0 \<le> timeLeft st \<Longrightarrow> 0 \<le> timeLeft (tick st)"
  by (simp add: tick_def)

lemma ticks_nonneg: "0 \<le> timeLeft st \<Longrightarrow> 0 \<le> timeLeft (ticks n st)"
  by (induction n arbitrary: st) (simp_all add: tick_nonneg)

text \<open>
  Claim C2. A tick of a running timer with more than one second left takes one second off
  and leaves it running; with exactly one second left it sets the time left to 0 and stops
  the timer; a tick of a paused timer changes nothing. The time left never becomes negative.
  So \<open>n\<close> ticks of a running timer take \<open>n\<close> seconds off while \<open>n\<close> is less than the
  time left, and from then on the time left is 0 and the timer is stopped.
\<close>

theorem tick_countdown:
  "(isRunning st \<and> 1 < timeLeft st \<longrightarrow>
      tick st = st\<lparr>timeLeft := timeLeft st - 1\<rparr> \<and> isRunning (tick st))
   \<and> (isRunning st \<and> timeLeft st = 1 \<longrightarrow>
      timeLeft (tick st) = 0 \<and> \<not> isRunning (tick st)
      \<and> tick st = st\<lparr>timeLeft := 0, isRunning := False\<rparr>)
   \<and> (\<not> isRunning st \<longrightarrow> tick st = st)
   \<and> (0 \<le> timeLeft st \<longrightarrow> 0 \<le> timeLeft (ticks n st))
   \<and> (isRunning st \<and> int n < timeLeft st \<longrightarrow>
      timeLeft (ticks n st) = timeLeft st - int n \<and> isRunning (ticks n st)
      \<and> ticks n st = st\<lparr>timeLeft := timeLeft st - int n\<rparr>)
   \<and> (isRunning st \<and> 0 < timeLeft st \<and> timeLeft st \<le> int n \<longrightarrow>
      timeLeft (ticks n st) = 0 \<and> \<not> isRunning (ticks n st)
      \<and> ticks n st = st\<lparr>timeLeft := 0, isRunning := False\<rparr>)"
proof (intro conjI impI)
  assume a: "isRunning st \<and> int n < timeLeft st"
  then show "ticks n st = st\<lparr>timeLeft := timeLeft st - int n\<rparr>"
    by (simp add: ticks_running)
  then show "timeLeft (ticks n st) = timeLeft st - int n" "isRunning (ticks n st)"
    using a by simp_all
next
  assume a: "isRunning st \<and> 0 < timeLeft st \<and> timeLeft st \<le> int n"
  then show e: "ticks n st = st\<lparr>timeLeft := 0, isRunning := False\<rparr>"
    by (simp add: ticks_expired)
  show "timeLeft (ticks n st) = 0" "\<not> isRunning (ticks n st)"
    by (simp_all add: e)
qed (simp_all add: tick_def ticks_nonneg)

theorem tick_countdown_witness:
  "timeLeft (ticks 2 (initialState\<lparr>isRunning := True, timeLeft := 3\<rparr>)) = 1
   \<and> isRunning (ticks 2 (initialState\<lparr>isRunning := True, timeLeft := 3\<rparr>))
   \<and> timeLeft (ticks 5 (initialState\<lparr>isRunning := True, timeLeft := 3\<rparr>)) = 0
   \<and> \<not> isRunning (ticks 5 (initialState\<lparr>isRunning := True, timeLeft := 3\<rparr>))
   \<and> tick (initialState\<lparr>isRunning := True, timeLeft := 1\<rparr>)
       = initialState\<lparr>isRunning := False, timeLeft := 0\<rparr>
   \<and> tick initialState = initialState
   \<and> tick (initialState\<lparr>isRunning := True, timeLeft := 3\<rparr>)
       = initialState\<lparr>isRunning := True, timeLeft := 2\<rparr>"
  using tick_countdown [of "initialState\<lparr>isRunning := True, timeLeft := 3\<rparr>" 2]
    tick_countdown [of "initialState\<lparr>isRunning := True, timeLeft := 3\<rparr>" 5]
    tick_countdown [of "initialState\<lparr>isRunning := True, timeLeft := 1\<rparr>" 0]
    tick_countdown [of initialState 0]
  by (simp add: initialState_def)

text \<open>
  Claim C9. While the timer is paused, changing the duration of the current phase sets the
  time left to the new full length of that phase (sixty times the new \<open>workDuration\<close> in
  a work phase, the new \<open>shortBreakDuration\<close> in a short break, the new
  \<open>longBreakDuration\<close> in a long break) and changes nothing else of the timer state: 25
  to 30 minutes of work, paused in a work phase, gives 1800 seconds. While the timer runs,
  the same change leaves the timer state as it is; the next completion then takes the length
  of the next phase from the new settings.
\<close>

theorem recompute_on_settings_change:
  "(\<not> isRunning st \<and> sessionType st = work \<and> workDuration old \<noteq> workDuration new \<longrightarrow>
        snd (changeSettings new (old, st)) = st\<lparr>timeLeft := max 0 (workDuration new * 60)\<rparr>)
   \<and> (\<not> isRunning st \<and> sessionType st = short_break
        \<and> shortBreakDuration old \<noteq> shortBreakDuration new \<longrightarrow>
        snd (changeSettings new (old, st)) = st\<lparr>timeLeft := max 0 (shortBreakDuration new * 60)\<rparr>)
   \<and> (\<not> isRunning st \<and> sessionType st = long_break
        \<and> longBreakDuration old \<noteq> longBreakDuration new \<longrightarrow>
        snd (changeSettings new (old, st)) = st\<lparr>timeLeft := max 0 (longBreakDuration new * 60)\<rparr>)
   \<and> (\<not> isRunning st \<and> sessionType st = work \<and> workDuration old = 25 \<and> workDuration new = 30 \<longrightarrow>
        timeLeft (snd (changeSettings new (old, st))) = 1800
        \<and> sessionType (snd (changeSettings new (old, st))) = work)
   \<and> (isRunning st \<longrightarrow>
        snd (changeSettings new (old, st)) = st
        \<and> timeLeft (snd (changeSettings new (old, st))) = timeLeft st)
   \<and> fst (changeSettings new (old, st)) = new
   \<and> (sessionType (completeState new st) = work \<longrightarrow>
        timeLeft (completeState new st) = max 0 (workDuration new * 60))
   \<and> (sessionType (completeState new st) = short_break \<longrightarrow>
        timeLeft (completeState new st) = max 0 (shortBreakDuration new * 60))
   \<and> (sessionType (completeState new st) = long_break \<longrightarrow>
        timeLeft (completeState new st) = max 0 (longBreakDuration new * 60))"
proof (intro conjI impI)
  assume "\<not> isRunning st \<and> sessionType st = work \<and> workDuration old \<noteq> workDuration new"
  then show "snd (changeSettings new (old, st)) = st\<lparr>timeLeft := max 0 (workDuration new * 60)\<rparr>"
    by (simp add: changeSettings_def recomputeTimeLeft_def currentDurationSeconds_eq
        durationsChanged_def)
next
  assume "\<not> isRunning st \<and> sessionType st = short_break
    \<and> shortBreakDuration old \<noteq> shortBreakDuration new"
  then show "snd (changeSettings new (old, st))
      = st\<lparr>timeLeft := max 0 (shortBreakDuration new * 60)\<rparr>"
    by (simp add: changeSettings_def recomputeTimeLeft_def currentDurationSeconds_eq
        durationsChanged_def)
next
  assume "\<not> isRunning st \<and> sessionType st = long_break
    \<and> longBreakDuration old \<noteq> longBreakDuration new"
  then show "snd (changeSettings new (old, st))
      = st\<lparr>timeLeft := max 0 (longBreakDuration new * 60)\<rparr>"
    by (simp add: changeSettings_def recomputeTimeLeft_def currentDurationSeconds_eq
        durationsChanged_def)
next
  assume a: "\<not> isRunning st \<and> sessionType st = work \<and> workDuration old = 25 \<and> workDuration new = 30"
  then show "timeLeft (snd (changeSettings new (old, st))) = 1800"
    by (simp add: changeSettings_def recomputeTimeLeft_def currentDurationSeconds_eq
        durationsChanged_def)
  from a show "sessionType (snd (changeSettings new (old, st))) = work"
    by (simp add: changeSettings_def recomputeTimeLeft_def durationsChanged_def)
next
  assume "isRunning st"
  then show e: "snd (changeSettings new (old, st)) = st"
    by (simp add: changeSettings_def recomputeTimeLeft_def)
  show "timeLeft (snd (changeSettings new (old, st))) = timeLeft st"
    by (simp add: e)
next
  show "fst (changeSettings new (old, st)) = new"
    by (simp add: changeSettings_def)
next
  assume "sessionType (completeState new st) = work"
  then show "timeLeft (completeState new st) = max 0 (workDuration new * 60)"
    by (auto simp: completeState_def Let_def currentDurationSeconds_eq split: if_splits)
next
  assume "sessionType (completeState new st) = short_break"
  then show "timeLeft (completeState new st) = max 0 (shortBreakDuration new * 60)"
    by (auto simp: completeState_def Let_def currentDurationSeconds_eq split: if_splits)
next
  assume "sessionType (completeState new st) = long_break"
  then show "timeLeft (completeState new st) = max 0 (longBreakDuration new * 60)"
    by (auto simp: completeState_def Let_def currentDurationSeconds_eq split: if_splits)
qed

theorem recompute_on_settings_change_witness:
  "snd (changeSettings (defaultSettings\<lparr>workDuration := 30\<rparr>) (defaultSettings, initialState))
     = initialState\<lparr>timeLeft := 1800\<rparr>
   \<and> snd (changeSettings (defaultSettings\<lparr>shortBreakDuration := 7\<rparr>)
        (defaultSettings, initialState\<lparr>sessionType := short_break, timeLeft := 120\<rparr>))
     = initialState\<lparr>sessionType := short_break, timeLeft := 420\<rparr>
   \<and> snd (changeSettings (defaultSettings\<lparr>longBreakDuration := 20\<rparr>)
        (defaultSettings, initialState\<lparr>sessionType := long_break, timeLeft := 120\<rparr>))
     = initialState\<lparr>sessionType := long_break, timeLeft := 1200\<rparr>
   \<and> snd (changeSettings (defaultSettings\<lparr>workDuration := 30\<rparr>)
        (defaultSettings, initialState\<lparr>isRunning := True\<rparr>))
     = initialState\<lparr>isRunning := True\<rparr>
   \<and> timeLeft (completeState (defaultSettings\<lparr>shortBreakDuration := 7\<rparr>)
        (initialState\<lparr>isRunning := True\<rparr>)) = 420
   \<and> timeLeft (completeState (defaultSettings\<lparr>workDuration := 30\<rparr>)
        (initialState\<lparr>sessionType := short_break, isRunning := True\<rparr>)) = 1800
   \<and> timeLeft (completeState (defaultSettings\<lparr>longBreakDuration := 20\<rparr>)
        (initialState\<lparr>pomodorosSinceLongBreak := 3, isRunning := True\<rparr>)) = 1200"
  using recompute_on_settings_change
      [of initialState defaultSettings "defaultSettings\<lparr>workDuration := 30\<rparr>"]
    recompute_on_settings_change
      [of "initialState\<lparr>sessionType := short_break, isRunning := True\<rparr>" defaultSettings
          "defaultSettings\<lparr>workDuration := 30\<rparr>"]
    recompute_on_settings_change
      [of "initialState\<lparr>pomodorosSinceLongBreak := 3, isRunning := True\<rparr>" defaultSettings
          "defaultSettings\<lparr>longBreakDuration := 20\<rparr>"]
    recompute_on_settings_change
      [of "initialState\<lparr>sessionType := short_break, timeLeft := 120\<rparr>" defaultSettings
          "defaultSettings\<lparr>shortBreakDuration := 7\<rparr>"]
    recompute_on_settings_change
      [of "initialState\<lparr>sessionType := long_break, timeLeft := 120\<rparr>" defaultSettings
          "defaultSettings\<lparr>longBreakDuration := 20\<rparr>"]
    recompute_on_settings_change
      [of "initialState\<lparr>isRunning := True\<rparr>" defaultSettings
          "defaultSettings\<lparr>workDuration := 30\<rparr>"]
    recompute_on_settings_change
      [of "initialState\<lparr>isRunning := True\<rparr>" defaultSettings
          "defaultSettings\<lparr>shortBreakDuration := 7\<rparr>"]
  by (simp add: initialState_def defaultSettings_def completeState_def Let_def)

subsection \<open>Invariants\<close>

lemma duration_pos: "validSettings s \<Longrightarrow> 0 < currentDurationSeconds type s"
  by (cases type) (simp_all add: currentDurationSeconds_eq validSettings_def)

lemma mount_zeroMeansPaused: "validSettings s \<Longrightarrow> zeroMeansPaused (mount s)"
  using duration_pos [of s work]
  by (simp add: zeroMeansPaused_def mount_def recomputeTimeLeft_def initialState_def)

lemma step_zeroMeansPaused:
  assumes "zeroMeansPaused sys" "validOp op"
  shows "zeroMeansPaused (step op sys)"
proof -
  obtain s st where sys: "sys = (s, st)" by (cases sys)
  from assms(1) have v: "validSettings s" and t: "0 \<le> timeLeft st"
    and z: "timeLeft st = 0 \<longrightarrow> \<not> isRunning st"
    by (simp_all add: sys zeroMeansPaused_def)
  note pos = duration_pos [OF v]
  show ?thesis
  proof (cases op)
    case Tick
    with v t z show ?thesis by (simp add: sys zeroMeansPaused_def tick_def)
  next
    case Complete
    have "0 < timeLeft (completeState s st)"
      using pos by (simp add: completeState_def Let_def split: prod.splits)
    with v Complete show ?thesis by (simp add: sys zeroMeansPaused_def)
  next
    case Toggle
    with v t z pos [of "sessionType st"] show ?thesis
      by (auto simp: sys zeroMeansPaused_def toggleRunning_def Let_def)
  next
    case Reset
    with v pos [of work] show ?thesis
      by (simp add: sys zeroMeansPaused_def resetTimer_def currentDurationSeconds_def)
  next
    case (ChangeSettings new)
    with assms(2) have "validSettings new" by simp
    with t z duration_pos [of new "sessionType st"] ChangeSettings show ?thesis
      by (auto simp: sys zeroMeansPaused_def changeSettings_def recomputeTimeLeft_def)
  qed
qed

lemma run_zeroMeansPaused:
  "zeroMeansPaused sys \<Longrightarrow> list_all validOp ops \<Longrightarrow> zeroMeansPaused (run ops sys)"
  by (induction ops arbitrary: sys) (simp_all add: step_zeroMeansPaused)

lemma duration_nonneg: "0 \<le> currentDurationSeconds type s"
  by (simp add: currentDurationSeconds_eq)

lemma mount_tracked: "tracked (mount s) (currentDurationSeconds work s, False)"
  by (simp add: tracked_def mount_def recomputeTimeLeft_def initialState_def)

lemma step_tracked:
  assumes "tracked sys (full, b)" and "0 \<le> timeLeft (snd sys)"
  shows "tracked (step op sys) (lastFull op sys full, shortened op sys full b)"
proof -
  obtain s st where sys: "sys = (s, st)" by (cases sys)
  from assms(1) have le: "timeLeft st \<le> full"
    and cur: "\<not> b \<longrightarrow> full \<le> currentDurationSeconds (sessionType st) s"
    by (simp_all add: sys tracked_def)
  from assms(2) have t: "0 \<le> timeLeft st" by (simp add: sys)
  show ?thesis
  proof (cases op)
    case Tick
    with le cur t show ?thesis by (simp add: sys tracked_def tick_def)
  next
    case Complete
    then show ?thesis
      by (simp add: sys tracked_def completeState_def Let_def split: prod.splits)
  next
    case Toggle
    with le cur show ?thesis by (simp add: sys tracked_def toggleRunning_def Let_def)
  next
    case Reset
    then show ?thesis
      by (simp add: sys tracked_def resetTimer_def currentDurationSeconds_def)
  next
    case (ChangeSettings new)
    have same: "\<not> durationsChanged s new \<Longrightarrow>
      currentDurationSeconds (sessionType st) new = currentDurationSeconds (sessionType st) s"
      by (cases "sessionType st") (simp_all add: durationsChanged_def currentDurationSeconds_def)
    from le cur same ChangeSettings show ?thesis
      by (auto simp: sys tracked_def changeSettings_def recomputeTimeLeft_def)
  qed
qed

lemma run_tracked:
  "zeroMeansPaused sys \<Longrightarrow> tracked sys g \<Longrightarrow> list_all validOp ops \<Longrightarrow>
   tracked (run ops sys) (track ops sys g)"
proof (induction ops arbitrary: sys g)
  case Nil
  then show ?case by simp
next
  case (Cons op ops)
  obtain full b where g: "g = (full, b)" by (cases g)
  from Cons.prems(1) have "0 \<le> timeLeft (snd sys)"
    by (cases sys) (simp add: zeroMeansPaused_def)
  with Cons.prems have "tracked (step op sys) (lastFull op sys full, shortened op sys full b)"
    "zeroMeansPaused (step op sys)"
    by (simp_all add: g step_tracked step_zeroMeansPaused)
  with Cons.prems show ?case by (simp add: g Cons.IH)
qed

lemma run_ticks: "run (replicate n Tick) (s, st) = (s, ticks n st)"
  by (induction n arbitrary: st) simp_all

lemma track_snoc:
  "track (ops @ [op]) sys g
     = (lastFull op (run ops sys) (fst (track ops sys g)),
        shortened op (run ops sys) (fst (track ops sys g)) (snd (track ops sys g)))"
proof (induction ops arbitrary: sys g)
  case Nil
  show ?case by (cases g) simp
next
  case (Cons a ops)
  show ?case by (cases g) (simp add: Cons.IH)
qed

lemma shortenedAfter_snoc:
  "shortenedAfter (ops @ [op]) s0
     = shortened op (run ops (mount s0)) (lastFullAfter ops s0) (shortenedAfter ops s0)"
  by (simp add: shortenedAfter_def lastFullAfter_def track_snoc)

text \<open>
  Claim C3, as amended. After any sequence of ticks, completions, start/pause, reset and
  settings changes (all settings within the limits of the settings dialog) the time left is
  at least 0 and a timer with 0 seconds left is not running. The time left is at most the
  full length to which it was last set (\<open>lastFullAfter\<close>), and that is at most the full
  length of the current phase under the current settings unless a settings change that
  arrived while the timer ran has left the current phase shorter than it
  (\<open>shortenedAfter\<close>). That exception ends with the next completion, reset, start from 0
  seconds or change of the durations while paused, and it cannot begin in any other way than
  by a settings change while the timer runs.
\<close>

theorem timeLeft_invariant:
  assumes "validSettings s0" and "list_all validOp ops"
  shows "0 \<le> timeLeft (snd (run ops (mount s0)))
    \<and> (timeLeft (snd (run ops (mount s0))) = 0 \<longrightarrow> \<not> isRunning (snd (run ops (mount s0))))
    \<and> timeLeft (snd (run ops (mount s0))) \<le> lastFullAfter ops s0
    \<and> (\<not> shortenedAfter ops s0 \<longrightarrow>
         timeLeft (snd (run ops (mount s0)))
           \<le> currentDurationSeconds (sessionType (snd (run ops (mount s0)))) (fst (run ops (mount s0))))
    \<and> \<not> shortenedAfter [] s0
    \<and> \<not> shortenedAfter (ops @ [Complete]) s0
    \<and> \<not> shortenedAfter (ops @ [Reset]) s0
    \<and> (\<not> isRunning (snd (run ops (mount s0))) \<and> durationsChanged (fst (run ops (mount s0))) new \<longrightarrow>
         \<not> shortenedAfter (ops @ [ChangeSettings new]) s0)
    \<and> (\<not> isRunning (snd (run ops (mount s0))) \<and> timeLeft (snd (run ops (mount s0))) = 0 \<longrightarrow>
         \<not> shortenedAfter (ops @ [Toggle]) s0)
    \<and> (isRunning (snd (run ops (mount s0))) \<longrightarrow>
         shortenedAfter (ops @ [ChangeSettings new]) s0
           = (currentDurationSeconds (sessionType (snd (run ops (mount s0)))) new
                < lastFullAfter ops s0))
    \<and> shortenedAfter (ops @ [Tick]) s0 = shortenedAfter ops s0"
proof -
  have z: "zeroMeansPaused (run ops (mount s0))"
    using assms by (simp add: run_zeroMeansPaused mount_zeroMeansPaused)
  have "tracked (run ops (mount s0)) (track ops (mount s0) (currentDurationSeconds work s0, False))"
    using assms by (intro run_tracked mount_zeroMeansPaused mount_tracked)
  then have w: "tracked (run ops (mount s0)) (lastFullAfter ops s0, shortenedAfter ops s0)"
    by (simp add: lastFullAfter_def shortenedAfter_def)
  from z w have inv: "0 \<le> timeLeft (snd (run ops (mount s0)))
    \<and> (timeLeft (snd (run ops (mount s0))) = 0 \<longrightarrow> \<not> isRunning (snd (run ops (mount s0))))
    \<and> timeLeft (snd (run ops (mount s0))) \<le> lastFullAfter ops s0
    \<and> (\<not> shortenedAfter ops s0 \<longrightarrow>
         timeLeft (snd (run ops (mount s0)))
           \<le> currentDurationSeconds (sessionType (snd (run ops (mount s0)))) (fst (run ops (mount s0))))"
    by (cases "run ops (mount s0)") (auto simp: zeroMeansPaused_def tracked_def)
  have e: "\<not> shortenedAfter [] s0"
    by (simp add: shortenedAfter_def)
  have g: "\<not> shortenedAfter (ops @ [Complete]) s0" "\<not> shortenedAfter (ops @ [Reset]) s0"
    "shortenedAfter (ops @ [Tick]) s0 = shortenedAfter ops s0"
    by (cases "run ops (mount s0)"; simp add: shortenedAfter_snoc)+
  have c: "\<not> shortenedAfter (ops @ [ChangeSettings new]) s0"
    if "\<not> isRunning (snd (run ops (mount s0))) \<and> durationsChanged (fst (run ops (mount s0))) new"
    using that by (cases "run ops (mount s0)") (simp add: shortenedAfter_snoc)
  have t: "\<not> shortenedAfter (ops @ [Toggle]) s0"
    if "\<not> isRunning (snd (run ops (mount s0))) \<and> timeLeft (snd (run ops (mount s0))) = 0"
    using that by (cases "run ops (mount s0)") (simp add: shortenedAfter_snoc)
  have r: "shortenedAfter (ops @ [ChangeSettings new]) s0
           = (currentDurationSeconds (sessionType (snd (run ops (mount s0)))) new
                < lastFullAfter ops s0)"
    if "isRunning (snd (run ops (mount s0)))"
    using that by (cases "run ops (mount s0)") (simp add: shortenedAfter_snoc)
  from inv e g c t r show ?thesis by blast
qed

lemmas machine_eval = mount_def initialState_def defaultSettings_def validSettings_def
  changeSettings_def durationsChanged_def recomputeTimeLeft_def toggleRunning_def tick_def
  completeState_def resetTimer_def currentDurationSeconds_eq minutesToSeconds_of_int Let_def
  lastFullAfter_def shortenedAfter_def

theorem timeLeft_invariant_witness:
  "validSettings defaultSettings
   \<and> list_all validOp [Toggle, ChangeSettings (defaultSettings\<lparr>workDuration := 10\<rparr>), Complete]
   \<and> \<not> shortenedAfter [Toggle, ChangeSettings (defaultSettings\<lparr>workDuration := 10\<rparr>), Complete]
        defaultSettings
   \<and> lastFullAfter [Toggle, ChangeSettings (defaultSettings\<lparr>workDuration := 10\<rparr>), Complete]
        defaultSettings = 300
   \<and> timeLeft (snd (run [Toggle, ChangeSettings (defaultSettings\<lparr>workDuration := 10\<rparr>), Complete]
        (mount defaultSettings))) \<le> 300
   \<and> currentDurationSeconds
        (sessionType (snd (run [Toggle, ChangeSettings (defaultSettings\<lparr>workDuration := 10\<rparr>), Complete]
           (mount defaultSettings))))
        (fst (run [Toggle, ChangeSettings (defaultSettings\<lparr>workDuration := 10\<rparr>), Complete]
           (mount defaultSettings))) = 300
   \<and> lastFullAfter [Toggle, ChangeSettings (defaultSettings\<lparr>workDuration := 10\<rparr>), Tick]
        defaultSettings = 1500
   \<and> timeLeft (snd (run [Toggle, ChangeSettings (defaultSettings\<lparr>workDuration := 10\<rparr>), Tick]
        (mount defaultSettings))) \<le> 1500
   \<and> shortenedAfter [Toggle, ChangeSettings (defaultSettings\<lparr>workDuration := 10\<rparr>)] defaultSettings
   \<and> \<not> shortenedAfter [Toggle, ChangeSettings (defaultSettings\<lparr>workDuration := 10\<rparr>),
          ChangeSettings (defaultSettings\<lparr>workDuration := 30\<rparr>)] defaultSettings
   \<and> \<not> shortenedAfter [Toggle, ChangeSettings (defaultSettings\<lparr>workDuration := 10\<rparr>), Toggle,
          ChangeSettings (defaultSettings\<lparr>workDuration := 20\<rparr>)] defaultSettings
   \<and> timeLeft (snd (run (Toggle # replicate 60 Tick) (mount (defaultSettings\<lparr>workDuration := 1\<rparr>)))) = 0
   \<and> \<not> isRunning (snd (run (Toggle # replicate 60 Tick) (mount (defaultSettings\<lparr>workDuration := 1\<rparr>))))
   \<and> \<not> shortenedAfter ((Toggle # replicate 60 Tick) @ [Toggle]) (defaultSettings\<lparr>workDuration := 1\<rparr>)"
proof -
  let ?c = "ChangeSettings (defaultSettings\<lparr>workDuration := 10\<rparr>)"
  let ?d = "defaultSettings\<lparr>workDuration := 30\<rparr>"
  let ?e = "defaultSettings\<lparr>workDuration := 20\<rparr>"
  let ?s = "defaultSettings\<lparr>workDuration := 1\<rparr>"
  have v: "validSettings defaultSettings" "validSettings ?s"
    by (simp_all add: machine_eval)
  have l: "list_all validOp [Toggle, ?c, Complete]" "list_all validOp [Toggle, ?c, Tick]"
    "list_all validOp [Toggle, ?c]" "list_all validOp [Toggle, ?c, Toggle]"
    "list_all validOp (Toggle # replicate 60 Tick)"
    by (simp_all add: machine_eval list_all_iff)
  have k: "\<not> shortenedAfter [Toggle, ?c, Complete] defaultSettings"
    by (simp add: machine_eval)
  have f: "lastFullAfter [Toggle, ?c, Complete] defaultSettings = 300"
    "lastFullAfter [Toggle, ?c, Tick] defaultSettings = 1500"
    "lastFullAfter [Toggle, ?c] defaultSettings = 1500"
    by (simp_all add: machine_eval)
  have d: "currentDurationSeconds (sessionType (snd (run [Toggle, ?c, Complete] (mount defaultSettings))))
        (fst (run [Toggle, ?c, Complete] (mount defaultSettings))) = 300"
    by (simp add: machine_eval)
  have r: "isRunning (snd (run [Toggle, ?c] (mount defaultSettings)))"
    "sessionType (snd (run [Toggle, ?c] (mount defaultSettings))) = work"
    "\<not> isRunning (snd (run [Toggle, ?c, Toggle] (mount defaultSettings)))"
    "durationsChanged (fst (run [Toggle, ?c, Toggle] (mount defaultSettings))) ?e"
    by (simp_all add: machine_eval)
  have m: "run [Toggle] (mount ?s)
      = (?s, \<lparr> sessionType = work, timeLeft = 60, isRunning = True, pomodorosSinceLongBreak = 0 \<rparr>)"
    by (simp add: machine_eval)
  have "run (Toggle # replicate 60 Tick) (mount ?s) = run (replicate 60 Tick) (run [Toggle] (mount ?s))"
    by simp
  also have "\<dots> = (?s, ticks 60 \<lparr> sessionType = work, timeLeft = 60, isRunning = True,
      pomodorosSinceLongBreak = 0 \<rparr>)"
    unfolding m by (rule run_ticks)
  also have "ticks 60 \<lparr> sessionType = work, timeLeft = 60, isRunning = True,
      pomodorosSinceLongBreak = 0 \<rparr>
      = \<lparr> sessionType = work, timeLeft = 0, isRunning = False, pomodorosSinceLongBreak = 0 \<rparr>"
    by (subst ticks_expired) simp_all
  finally have z: "timeLeft (snd (run (Toggle # replicate 60 Tick) (mount ?s))) = 0"
    "\<not> isRunning (snd (run (Toggle # replicate 60 Tick) (mount ?s)))"
    by simp_all
  note a = timeLeft_invariant [OF v(1) l(1)]
  note b = timeLeft_invariant [OF v(1) l(2)]
  note c = timeLeft_invariant [OF v(1) l(3), of ?d]
  note e = timeLeft_invariant [OF v(1) l(4), of ?e]
  note g = timeLeft_invariant [OF v(2) l(5)]
  have 1: "timeLeft (snd (run [Toggle, ?c, Complete] (mount defaultSettings))) \<le> 300"
    using a f(1) by simp
  have 2: "timeLeft (snd (run [Toggle, ?c, Tick] (mount defaultSettings))) \<le> 1500"
    using b f(2) by simp
  have 3: "shortenedAfter [Toggle, ?c] defaultSettings"
    using timeLeft_invariant [OF v(1), of "[Toggle]" "defaultSettings\<lparr>workDuration := 10\<rparr>"]
    by (simp add: machine_eval)
  have 4: "\<not> shortenedAfter ([Toggle, ?c] @ [ChangeSettings ?d]) defaultSettings"
    using c r(1,2) f(3) by (simp add: currentDurationSeconds_eq)
  have 5: "\<not> shortenedAfter ([Toggle, ?c, Toggle] @ [ChangeSettings ?e]) defaultSettings"
    using e r(3,4) by blast
  have 6: "\<not> shortenedAfter ((Toggle # replicate 60 Tick) @ [Toggle]) ?s"
    using g z by blast
  from v(1) l(1) k f(1) 1 d f(2) 2 3 4 5 z 6 show ?thesis by simp
qed

text \<open>
  The bound of C3 as first stated fails: start the timer (1500 seconds of work left) and,
  while it runs, save a work duration of 10 minutes. The time left stays 1500, the full
  length of the phase is now 600.
\<close>

theorem timeLeft_bound_counterexample:
  "validSettings defaultSettings
   \<and> validSettings (defaultSettings\<lparr>workDuration := 10\<rparr>)
   \<and> timeLeft (snd (run [Toggle, ChangeSettings (defaultSettings\<lparr>workDuration := 10\<rparr>)]
        (mount defaultSettings))) = 1500
   \<and> currentDurationSeconds
        (sessionType (snd (run [Toggle, ChangeSettings (defaultSettings\<lparr>workDuration := 10\<rparr>)]
           (mount defaultSettings))))
        (fst (run [Toggle, ChangeSettings (defaultSettings\<lparr>workDuration := 10\<rparr>)]
           (mount defaultSettings))) = 600
   \<and> \<not> timeLeft (snd (run [Toggle, ChangeSettings (defaultSettings\<lparr>workDuration := 10\<rparr>)]
        (mount defaultSettings)))
       \<le> currentDurationSeconds
        (sessionType (snd (run [Toggle, ChangeSettings (defaultSettings\<lparr>workDuration := 10\<rparr>)]
           (mount defaultSettings))))
        (fst (run [Toggle, ChangeSettings (defaultSettings\<lparr>workDuration := 10\<rparr>)]
           (mount defaultSettings)))"
  by (simp add: machine_eval)

section \<open>Verification: completion statistics\<close>

lemma map_of_assign: "map_of (assign k v xs) = (map_of xs)(k \<mapsto> v)"
  by (induction xs) (auto simp: fun_eq_iff)

lemma map_fst_assign:
  "map fst (assign k v xs) = (if k \<in> set (map fst xs) then map fst xs else map fst xs @ [k])"
  by (induction xs) (auto simp: rev_image_eqI)

lemma distinct_assign: "distinct (map fst xs) \<Longrightarrow> distinct (map fst (assign k v xs))"
  by (simp add: map_fst_assign)

lemma history_completeStats:
  "history (completeStats k i t s prev)
     = take 50 (\<lparr> logId = i, logType = work, completedAt = t,
                   durationMinutes = sessionDurationMinutes work s \<rparr> # history prev)"
  by (simp add: completeStats_def Let_def)

lemma length_history_completeStats:
  "length (history (completeStats k i t s prev)) = min 50 (Suc (length (history prev)))"
  by (simp add: history_completeStats min_def)

lemma length_history_completeStatsAll:
  "length (history (completeStatsAll evs s stats)) \<le> max 50 (length (history stats))"
proof (induction evs arbitrary: stats)
  case Nil
  show ?case by simp
next
  case (Cons ev evs)
  obtain k i t where ev: "ev = (k, i, t)" by (cases ev)
  have "length (history (completeStatsAll evs s (completeStats k i t s stats)))
      \<le> max 50 (length (history (completeStats k i t s stats)))"
    by (rule Cons.IH)
  also have "\<dots> \<le> 50" by (simp add: length_history_completeStats)
  finally show ?case by (simp add: ev)
qed

lemma length_history_completeStatsAll_nonempty:
  "evs \<noteq> [] \<Longrightarrow> length (history (completeStatsAll evs s stats)) \<le> 50"
proof (cases evs)
  case Nil
  assume "evs \<noteq> []" with Nil show ?thesis by simp
next
  case (Cons ev rest)
  obtain k i t where ev: "ev = (k, i, t)" by (cases ev)
  have "length (history (completeStatsAll rest s (completeStats k i t s stats)))
      \<le> max 50 (length (history (completeStats k i t s stats)))"
    by (rule length_history_completeStatsAll)
  also have "\<dots> \<le> 50" by (simp add: length_history_completeStats)
  finally show ?thesis by (simp add: Cons ev)
qed

text \<open>
  What the updater handed to \<open>setStats\<close> does when it is called: the count of the day's
  key becomes the old count (0 when the key has no entry) plus one and no other day changes;
  one new log entry is put at index 0 of the history, in front of the old entries; the
  history is cut to its first 50 entries.
\<close>

lemma completeStats_updater:
  "map_of (byDay (completeStats k i t s prev)) k = Some (countOr0 (byDay prev) k + 1)
   \<and> (map_of (byDay prev) k = None \<longrightarrow> map_of (byDay (completeStats k i t s prev)) k = Some 1)
   \<and> (\<forall>k'. k' \<noteq> k \<longrightarrow> map_of (byDay (completeStats k i t s prev)) k' = map_of (byDay prev) k')
   \<and> history (completeStats k i t s prev) ! 0
       = \<lparr> logId = i, logType = work, completedAt = t,
           durationMinutes = sessionDurationMinutes work s \<rparr>
   \<and> tl (history (completeStats k i t s prev)) = take 49 (history prev)
   \<and> length (history (completeStats k i t s prev)) = min 50 (length (history prev) + 1)
   \<and> (evs \<noteq> [] \<or> length (history prev) \<le> 50 \<longrightarrow>
        length (history (completeStatsAll evs s prev)) \<le> 50)"
proof (intro conjI impI allI)
  show "map_of (byDay (completeStats k i t s prev)) k = Some (countOr0 (byDay prev) k + 1)"
    by (simp add: completeStats_def Let_def map_of_assign)
  show "map_of (byDay (completeStats k i t s prev)) k = Some 1" if "map_of (byDay prev) k = None"
    using that by (simp add: completeStats_def Let_def map_of_assign countOr0_def)
  show "map_of (byDay (completeStats k i t s prev)) k' = map_of (byDay prev) k'" if "k' \<noteq> k" for k'
    using that by (simp add: completeStats_def Let_def map_of_assign)
  show "history (completeStats k i t s prev) ! 0
       = \<lparr> logId = i, logType = work, completedAt = t,
           durationMinutes = sessionDurationMinutes work s \<rparr>"
    by (simp add: history_completeStats)
  show "tl (history (completeStats k i t s prev)) = take 49 (history prev)"
    by (simp add: history_completeStats take_Cons')
  show "length (history (completeStats k i t s prev)) = min 50 (length (history prev) + 1)"
    by (simp add: length_history_completeStats)
  show "length (history (completeStatsAll evs s prev)) \<le> 50"
    if "evs \<noteq> [] \<or> length (history prev) \<le> 50"
  proof (cases "evs = []")
    case True
    with that show ?thesis by simp
  next
    case False
    then show ?thesis by (rule length_history_completeStatsAll_nonempty)
  qed
qed

lemma complete_example:
  "handleSessionComplete ''2024-01-03'' ''id-1'' ''2024-01-03T09:25:00.000Z'' defaultSettings
       (initialState\<lparr>timeLeft := 0\<rparr>, defaultStats)
     = (\<lparr> sessionType = short_break, timeLeft = 300, isRunning = True,
           pomodorosSinceLongBreak = 1 \<rparr>, defaultStats, work)"
  by (simp add: handleSessionComplete_def completeUpdater_def completeState_def
      currentDurationSeconds_def Let_def initialState_def defaultSettings_def
      minutesToSeconds_def Math_round_def)

lemma complete_general:
  "fst (snd (handleSessionComplete k i t s (st, stats))) = stats"
  "fst (handleSessionComplete k i t s (st, stats)) = completeState s st"
  "snd (snd (handleSessionComplete k i t s (st, stats))) = work"
  by (simp_all add: handleSessionComplete_def completeUpdater_def Let_def)

lemma completeStats_example:
  "completeStats ''2024-01-03'' ''id-1'' ''2024-01-03T09:25:00.000Z'' defaultSettings defaultStats
     = \<lparr> byDay = [(''2024-01-03'', 1)],
         history = [\<lparr> logId = ''id-1'', logType = work,
                      completedAt = ''2024-01-03T09:25:00.000Z'', durationMinutes = 25 \<rparr>] \<rparr>"
  by (simp add: completeStats_def defaultStats_def defaultSettings_def countOr0_def Let_def)

text \<open>
  Claim C4 says that when a work phase completes on a day without an entry the count of that
  day becomes 1 and one new log entry is put at index 0 of the history. The program does
  not do that. \<open>handleSessionComplete\<close> calls \<open>setStats\<close> only if
  \<open>completedWorkSession\<close> is true, and it reads that variable before React has run the
  updater that sets it: for every timer state, work phase or not, the statistics stay what
  they were, and the notification is always the one for a work phase. With the default
  settings and empty statistics, a work phase that completes on 2024-01-03 leaves the day
  without a count and the history empty, where the updater of \<open>setStats\<close> would have
  stored count 1 and one log entry.
\<close>

theorem handleSessionComplete_skips_stats:
  "fst (snd (handleSessionComplete k i t s (st, stats))) = stats
   \<and> fst (handleSessionComplete k i t s (st, stats)) = completeState s st
   \<and> snd (snd (handleSessionComplete k i t s (st, stats))) = work
   \<and> handleSessionComplete ''2024-01-03'' ''id-1'' ''2024-01-03T09:25:00.000Z'' defaultSettings
         (initialState\<lparr>timeLeft := 0\<rparr>, defaultStats)
       = (\<lparr> sessionType = short_break, timeLeft = 300, isRunning = True,
             pomodorosSinceLongBreak = 1 \<rparr>, defaultStats, work)
   \<and> map_of (byDay defaultStats) ''2024-01-03'' = None
   \<and> history defaultStats = []
   \<and> completeStats ''2024-01-03'' ''id-1'' ''2024-01-03T09:25:00.000Z'' defaultSettings defaultStats
       = \<lparr> byDay = [(''2024-01-03'', 1)],
           history = [\<lparr> logId = ''id-1'', logType = work,
                        completedAt = ''2024-01-03T09:25:00.000Z'', durationMinutes = 25 \<rparr>] \<rparr>"
  using complete_general [of k i t s st stats] complete_example completeStats_example
  by (simp add: defaultStats_def)

section \<open>Verification: dates, weekly series and streak\<close>

subsection \<open>Characters of a day key\<close>

lemma of_char_digitChar: "d < 10 \<Longrightarrow> (of_char (digitChar d) :: nat) = 48 + d"
proof -
  assume "d < 10"
  then consider "d = 0" | "d = 1" | "d = 2" | "d = 3" | "d = 4" | "d = 5" | "d = 6"
    | "d = 7" | "d = 8" | "d = 9"
    by atomize_elim arith
  then show ?thesis
    by cases (simp_all add: digitChar_def)
qed

lemma isDigit_digitChar: "d < 10 \<Longrightarrow> isDigit (digitChar d)"
  by (simp add: isDigit_def of_char_digitChar)

lemma showNat_digits: "list_all isDigit (showNat n)"
proof (induction n rule: showNat.induct)
  case (1 n)
  show ?case
  proof (cases "n < 10")
    case True
    then have "showNat n = [digitChar n]" by (simp add: showNat.simps)
    with isDigit_digitChar [OF True] show ?thesis by simp
  next
    case False
    then have e: "showNat n = showNat (n div 10) @ [digitChar (n mod 10)]"
      by (subst showNat.simps) simp
    have "isDigit (digitChar (n mod 10))"
      by (rule isDigit_digitChar) simp
    with 1 [OF False] show ?thesis unfolding e by simp
  qed
qed

lemma isDigit_0: "isDigit (CHR ''0'')"
  by (simp add: isDigit_def)

lemma padStart0_digits: "list_all isDigit (padStart0 w (showNat n))"
  using showNat_digits [of n] isDigit_0 by (auto simp: padStart0_def list_all_iff)

lemma list_all_isKeyChar: "list_all isDigit s \<Longrightarrow> list_all isKeyChar s"
  by (simp add: list_all_iff isKeyChar_def)

lemma isoYear_chars: "list_all isKeyChar (isoYear y)"
  using padStart0_digits [of 4 "nat y", THEN list_all_isKeyChar]
    padStart0_digits [of 6 "nat \<bar>y\<bar>", THEN list_all_isKeyChar]
  by (simp add: isoYear_def isKeyChar_def)

lemma isoDate_chars: "list_all isKeyChar (isoDate n)"
proof -
  obtain y m d where c: "civilFromDays n = (y, m, d)" by (cases "civilFromDays n")
  have h: "isKeyChar (CHR ''-'')" by (simp add: isKeyChar_def)
  show ?thesis
    using isoYear_chars [of y] padStart0_digits [of 2 "nat m", THEN list_all_isKeyChar]
      padStart0_digits [of 2 "nat d", THEN list_all_isKeyChar] h
    by (simp add: isoDate_def c)
qed

lemma isKeyChar_not_T: "isKeyChar c \<Longrightarrow> c \<noteq> CHR ''T''"
  by (auto simp: isKeyChar_def isDigit_def)

lemma beforeT_isoDate: "beforeT (isoDate n @ CHR ''T'' # rest) = isoDate n"
proof -
  have "\<forall>c \<in> set (isoDate n). c \<noteq> CHR ''T''"
    using isoDate_chars [of n] isKeyChar_not_T by (auto simp: list_all_iff)
  then show ?thesis by (simp add: beforeT_def)
qed

lemma toISOString_key:
  "(case toISOString (Some u) of Inl e \<Rightarrow> Inl e | Inr s \<Rightarrow> Inr (beforeT s))
     = (Inr (isoDate (u div msPerDay)) :: error + string)"
  by (simp add: toISOString_def beforeT_isoDate)

lemma todayKey_eq:
  "todayKey tz d =
     (case setHours0 tz d of None \<Rightarrow> Inl RangeError
      | Some u \<Rightarrow> Inr (isoDate (u div msPerDay)))"
  by (simp add: todayKey_def toISOString_def beforeT_isoDate split: option.splits)

subsection \<open>The rounds of the streak loop\<close>

lemma streakLoop_throws:
  "todayKey tz end = Inl e \<Longrightarrow> streakLoop tz stats end streak = Some (Inl e)"
  by (subst streakLoop.simps) simp

lemma streakLoop_breaks:
  "todayKey tz end = Inr k \<Longrightarrow> falsy (map_of stats k)
     \<Longrightarrow> streakLoop tz stats end streak = Some (Inr streak)"
  by (subst streakLoop.simps) simp

lemma streakLoop_continues:
  "todayKey tz end = Inr k \<Longrightarrow> \<not> falsy (map_of stats k)
     \<Longrightarrow> streakLoop tz stats end streak
         = streakLoop tz stats (shiftDate tz end (- 1)) (streak + 1)"
  by (subst streakLoop.simps) simp

text \<open>A round that leaves the date where it was is repeated for ever.\<close>

lemma streakLoop_stuck:
  assumes k: "todayKey tz end = Inr k"
    and c: "\<not> falsy (map_of stats k)"
    and s: "shiftDate tz end (- 1) = end"
  shows "streakLoop tz stats end streak = None"
proof -
  have "\<not> (tz' = tz \<and> stats' = stats \<and> end' = end)"
    if "streakLoop tz' stats' end' streak' = Some y" for tz' stats' end' streak' y
  proof (rule streakLoop.raw_induct
      [where P = "\<lambda>tz' stats' end' streak' y. \<not> (tz' = tz \<and> stats' = stats \<and> end' = end)",
        OF _ that])
    fix loop tz' stats' end' streak' y
    assume ih: "\<And>tz' stats' end' streak' y. loop tz' stats' end' streak' = Some y
        \<Longrightarrow> \<not> (tz' = tz \<and> stats' = stats \<and> end' = end)"
      and r: "(case todayKey tz' end' of
                 Inl e \<Rightarrow> Some (Inl e)
               | Inr k \<Rightarrow>
                   if falsy (map_of stats' k) then Some (Inr streak')
                   else loop tz' stats' (shiftDate tz' end' (- 1)) (streak' + 1)) = Some y"
    show "\<not> (tz' = tz \<and> stats' = stats \<and> end' = end)"
    proof
      assume e: "tz' = tz \<and> stats' = stats \<and> end' = end"
      with r k c s have "loop tz stats end (streak' + 1) = Some y" by simp
      from ih [OF this] show False by simp
    qed
  qed
  then have "streakLoop tz stats end streak \<noteq> Some y" for y by blast
  then show ?thesis by (cases "streakLoop tz stats end streak") auto
qed

text \<open>Where every round moves the date back, the loop ends.\<close>

lemma streakLoop_returns:
  assumes earlier: "\<And>t. UTC tz (LocalTime tz t - msPerDay) < t"
  shows "\<exists>r. streakLoop tz stats end streak = Some r"
proof (cases "end")
  case None
  then have "todayKey tz end = Inl RangeError"
    by (simp add: todayKey_eq setHours0_def)
  from streakLoop_throws [OF this] show ?thesis by blast
next
  case (Some t)
  have "\<exists>r. streakLoop tz stats (Some u) n = Some r" if "nat (u + maxTime) = m" for u n m
    using that
  proof (induction m arbitrary: u n rule: less_induct)
    case (less m)
    show ?case
    proof (cases "todayKey tz (Some u)")
      case (Inl e)
      from streakLoop_throws [OF this] show ?thesis by blast
    next
      case (Inr k)
      show ?thesis
      proof (cases "falsy (map_of stats k)")
        case True
        from streakLoop_breaks [OF Inr True] show ?thesis by blast
      next
        case False
        note c = streakLoop_continues [OF Inr False, of n]
        show ?thesis
        proof (cases "shiftDate tz (Some u) (- 1)")
          case None
          have "todayKey tz None = Inl RangeError"
            by (simp add: todayKey_eq setHours0_def)
          from streakLoop_throws [OF this, of stats "n + 1"] c None show ?thesis by simp
        next
          case (Some v)
          then have v: "v = UTC tz (LocalTime tz u - msPerDay)" "- maxTime \<le> v"
            by (auto simp: shiftDate_def TimeClip_def split: if_splits)
          with earlier [of u] have "nat (v + maxTime) < nat (u + maxTime)" by simp
          with less.IH [OF _ refl, of v "n + 1"] less.prems
          have "\<exists>r. streakLoop tz stats (Some v) (n + 1) = Some r" by simp
          with c Some show ?thesis by simp
        qed
      qed
    qed
  qed
  with Some show ?thesis by blast
qed

subsection \<open>Calendar dates\<close>

lemma replicate_numeral: "replicate (numeral k) x = x # replicate (pred_numeral k) x"
  by (simp add: numeral_eq_Suc)

lemmas iso_eval = isoYear_def padStart0_def showNat.simps digitChar_def replicate_numeral

lemma isoDate_winter:
  "isoDate 19718 = ''2023-12-27''" "isoDate 19719 = ''2023-12-28''"
  "isoDate 19720 = ''2023-12-29''" "isoDate 19721 = ''2023-12-30''"
  "isoDate 19722 = ''2023-12-31''" "isoDate 19723 = ''2024-01-01''"
  "isoDate 19724 = ''2024-01-02''" "isoDate 19725 = ''2024-01-03''"
  unfolding isoDate_def civilFromDays_def Let_def by (simp_all add: iso_eval)

lemma isoDate_spring:
  "isoDate 19809 = ''2024-03-27''" "isoDate 19810 = ''2024-03-28''"
  "isoDate 19811 = ''2024-03-29''" "isoDate 19812 = ''2024-03-30''"
  "isoDate 19813 = ''2024-03-31''" "isoDate 19814 = ''2024-04-01''"
  "isoDate 19815 = ''2024-04-02''"
  unfolding isoDate_def civilFromDays_def Let_def by (simp_all add: iso_eval)

lemma isoDate_apia:
  "isoDate 15338 = ''2011-12-30''" "isoDate 15339 = ''2011-12-31''"
  unfolding isoDate_def civilFromDays_def Let_def by (simp_all add: iso_eval)

lemmas host_eval = setHours0_def shiftDate_def LocalTime_def UTC_def TimeClip_def
  maxTime_def msPerDay_def

lemma six: "(6::nat) = Suc (Suc (Suc (Suc (Suc (Suc 0)))))"
  by simp

lemma example_counts: "countOr0 exampleStats ''2024-01-03'' = 0"
  by (simp add: countOr0_def exampleStats_def)

lemma local_dates:
  "localCalendarDate tokyo 1704250800000 = ''2024-01-03''"
  "localCalendarDate tokyo 1704164400000 = ''2024-01-02''"
  "localCalendarDate london 1712059200000 = ''2024-04-02''"
  "localCalendarDate apia 1325282400000 = ''2011-12-31''"
  "localCalendarDate utc 1704283200000 = ''2024-01-03''"
  by (simp_all add: localCalendarDate_def LocalTime_def msPerDay_def tokyo_def london_def apia_def
      utc_def isoDate_winter isoDate_spring isoDate_apia)

subsection \<open>A host on UTC\<close>

lemma day_floor:
  assumes "\<bar>t\<bar> \<le> maxTime"
  shows "\<bar>t div msPerDay * msPerDay\<bar> \<le> maxTime"
proof -
  have p: "0 < msPerDay" by (simp add: msPerDay_def)
  have "t div msPerDay * msPerDay + t mod msPerDay = t" by simp
  moreover have "0 \<le> t mod msPerDay" using p by simp
  ultimately have u: "t div msPerDay * msPerDay \<le> t" by linarith
  from assms have "- maxTime \<le> t" by simp
  then have "(- maxTime) div msPerDay \<le> t div msPerDay"
    using p by (intro zdiv_mono1)
  moreover have "(- maxTime) div msPerDay = - 100000000"
    by (simp add: maxTime_def msPerDay_def)
  ultimately have "- 100000000 \<le> t div msPerDay" by simp
  then have "- 100000000 * msPerDay \<le> t div msPerDay * msPerDay"
    using p by (intro mult_right_mono) simp_all
  moreover have "- 100000000 * msPerDay = - maxTime"
    by (simp add: maxTime_def msPerDay_def)
  ultimately have "- maxTime \<le> t div msPerDay * msPerDay" by simp
  with u assms show ?thesis by simp
qed

lemma todayKey_utc:
  assumes "\<bar>t\<bar> \<le> maxTime"
  shows "todayKey utc (Some t) = Inr (localCalendarDate utc t)"
proof -
  have "setHours0 utc (Some t) = Some (t div msPerDay * msPerDay)"
    using day_floor [OF assms] by (simp add: setHours0_def LocalTime_def UTC_def utc_def TimeClip_def)
  moreover have "t div msPerDay * msPerDay div msPerDay = t div msPerDay"
    by (simp add: msPerDay_def)
  ultimately show ?thesis
    by (simp add: todayKey_eq localCalendarDate_def LocalTime_def utc_def)
qed

lemma utc_midnights:
  "setHours0 utc (Some 1704283200000) = Some 1704240000000"
  "todayKey utc (Some 1704240000000) = Inr ''2024-01-03''"
  "todayKey utc (Some 1704283200000) = Inr ''2024-01-03''"
  by (simp_all add: todayKey_eq host_eval utc_def isoDate_winter)

lemma utc_days:
  "shiftDate utc (Some 1704240000000) (- 6) = Some 1703721600000"
  "shiftDate utc (Some 1704240000000) (- 5) = Some 1703808000000"
  "shiftDate utc (Some 1704240000000) (- 4) = Some 1703894400000"
  "shiftDate utc (Some 1704240000000) (- 3) = Some 1703980800000"
  "shiftDate utc (Some 1704240000000) (- 2) = Some 1704067200000"
  "shiftDate utc (Some 1704240000000) (- 1) = Some 1704153600000"
  "shiftDate utc (Some 1704240000000) 0 = Some 1704240000000"
  by (simp_all add: host_eval utc_def)

lemma utc_keys:
  "todayKey utc (Some 1703721600000) = Inr ''2023-12-28''"
  "todayKey utc (Some 1703808000000) = Inr ''2023-12-29''"
  "todayKey utc (Some 1703894400000) = Inr ''2023-12-30''"
  "todayKey utc (Some 1703980800000) = Inr ''2023-12-31''"
  "todayKey utc (Some 1704067200000) = Inr ''2024-01-01''"
  "todayKey utc (Some 1704153600000) = Inr ''2024-01-02''"
  by (simp_all add: todayKey_eq host_eval utc_def isoDate_winter)

lemma utc_week:
  "getWeekSeries utc plainLabel exampleStats (Some 1704283200000)
     = Inr [\<lparr> key = ''2023-12-28'', label = ''day'', value = 0 \<rparr>,
            \<lparr> key = ''2023-12-29'', label = ''day'', value = 0 \<rparr>,
            \<lparr> key = ''2023-12-30'', label = ''day'', value = 0 \<rparr>,
            \<lparr> key = ''2023-12-31'', label = ''day'', value = 0 \<rparr>,
            \<lparr> key = ''2024-01-01'', label = ''day'', value = 2 \<rparr>,
            \<lparr> key = ''2024-01-02'', label = ''day'', value = 1 \<rparr>,
            \<lparr> key = ''2024-01-03'', label = ''day'', value = 0 \<rparr>]"
  unfolding getWeekSeries_def utc_midnights six weekLoop.simps
  by (simp add: utc_days utc_keys utc_midnights countOr0_def exampleStats_def plainLabel_def)

lemma utc_streak:
  "calculateStreak utc exampleStats (Some 1704283200000) = Some (Inr 0)"
proof -
  have "streakLoop utc exampleStats (Some 1704240000000) 0 = Some (Inr 0)"
    by (rule streakLoop_breaks [OF utc_midnights(2)]) (simp add: exampleStats_def)
  then show ?thesis by (simp add: calculateStreak_def utc_midnights)
qed

subsection \<open>A host nine hours ahead of UTC\<close>

lemma back_tokyo: "UTC tokyo (LocalTime tokyo t - msPerDay) < t"
  by (simp add: UTC_def LocalTime_def tokyo_def msPerDay_def)

lemma tokyo_midnights:
  "setHours0 tokyo (Some 1704250800000) = Some 1704207600000"
  "setHours0 tokyo (Some 1704164400000) = Some 1704121200000"
  "setHours0 tokyo (Some 1704207600000) = Some 1704207600000"
  by (simp_all add: host_eval tokyo_def)

lemma tokyo_days:
  "shiftDate tokyo (Some 1704207600000) (- 6) = Some 1703689200000"
  "shiftDate tokyo (Some 1704207600000) (- 5) = Some 1703775600000"
  "shiftDate tokyo (Some 1704207600000) (- 4) = Some 1703862000000"
  "shiftDate tokyo (Some 1704207600000) (- 3) = Some 1703948400000"
  "shiftDate tokyo (Some 1704207600000) (- 2) = Some 1704034800000"
  "shiftDate tokyo (Some 1704207600000) (- 1) = Some 1704121200000"
  "shiftDate tokyo (Some 1704207600000) 0 = Some 1704207600000"
  "shiftDate tokyo (Some 1704121200000) (- 1) = Some 1704034800000"
  by (simp_all add: host_eval tokyo_def)

lemma tokyo_keys:
  "todayKey tokyo (Some 1703689200000) = Inr ''2023-12-27''"
  "todayKey tokyo (Some 1703775600000) = Inr ''2023-12-28''"
  "todayKey tokyo (Some 1703862000000) = Inr ''2023-12-29''"
  "todayKey tokyo (Some 1703948400000) = Inr ''2023-12-30''"
  "todayKey tokyo (Some 1704034800000) = Inr ''2023-12-31''"
  "todayKey tokyo (Some 1704121200000) = Inr ''2024-01-01''"
  "todayKey tokyo (Some 1704207600000) = Inr ''2024-01-02''"
  "todayKey tokyo (Some 1704250800000) = Inr ''2024-01-02''"
  "todayKey tokyo (Some 1704164400000) = Inr ''2024-01-01''"
  by (simp_all add: todayKey_eq host_eval tokyo_def isoDate_winter)

lemma tokyo_week:
  "getWeekSeries tokyo plainLabel exampleStats (Some 1704250800000)
     = Inr [\<lparr> key = ''2023-12-27'', label = ''day'', value = 0 \<rparr>,
            \<lparr> key = ''2023-12-28'', label = ''day'', value = 0 \<rparr>,
            \<lparr> key = ''2023-12-29'', label = ''day'', value = 0 \<rparr>,
            \<lparr> key = ''2023-12-30'', label = ''day'', value = 0 \<rparr>,
            \<lparr> key = ''2023-12-31'', label = ''day'', value = 0 \<rparr>,
            \<lparr> key = ''2024-01-01'', label = ''day'', value = 2 \<rparr>,
            \<lparr> key = ''2024-01-02'', label = ''day'', value = 1 \<rparr>]"
  unfolding getWeekSeries_def tokyo_midnights six weekLoop.simps
  by (simp add: tokyo_days tokyo_keys countOr0_def exampleStats_def plainLabel_def)

lemma tokyo_streak:
  "calculateStreak tokyo exampleStats (Some 1704250800000) = Some (Inr 2)"
  "calculateStreak tokyo exampleStats (Some 1704164400000) = Some (Inr 1)"
proof -
  have a: "streakLoop tokyo exampleStats (Some 1704034800000) n = Some (Inr n)" for n
    by (rule streakLoop_breaks [OF tokyo_keys(5)]) (simp add: exampleStats_def)
  have b: "streakLoop tokyo exampleStats (Some 1704121200000) n = Some (Inr (n + 1))" for n
    using streakLoop_continues [OF tokyo_keys(6), of exampleStats n] a [of "n + 1"]
    by (simp add: exampleStats_def tokyo_days)
  have c: "streakLoop tokyo exampleStats (Some 1704207600000) n = Some (Inr (n + 1 + 1))" for n
    using streakLoop_continues [OF tokyo_keys(7), of exampleStats n] b [of "n + 1"]
    by (simp add: exampleStats_def tokyo_days)
  show "calculateStreak tokyo exampleStats (Some 1704250800000) = Some (Inr 2)"
    using c [of 0] by (simp add: calculateStreak_def tokyo_midnights)
  show "calculateStreak tokyo exampleStats (Some 1704164400000) = Some (Inr 1)"
    using b [of 0] by (simp add: calculateStreak_def tokyo_midnights)
qed

subsection \<open>A host in London, across the start of summer time\<close>

lemma back_london: "UTC london (LocalTime london t - msPerDay) < t"
  by (simp add: UTC_def LocalTime_def london_def msPerDay_def)

lemma london_midnights:
  "setHours0 london (Some 1712059200000) = Some 1712012400000"
  by (simp_all add: host_eval london_def)

lemma london_days:
  "shiftDate london (Some 1712012400000) (- 6) = Some 1711497600000"
  "shiftDate london (Some 1712012400000) (- 5) = Some 1711584000000"
  "shiftDate london (Some 1712012400000) (- 4) = Some 1711670400000"
  "shiftDate london (Some 1712012400000) (- 3) = Some 1711756800000"
  "shiftDate london (Some 1712012400000) (- 2) = Some 1711843200000"
  "shiftDate london (Some 1712012400000) (- 1) = Some 1711926000000"
  "shiftDate london (Some 1712012400000) 0 = Some 1712012400000"
  "shiftDate london (Some 1711926000000) (- 1) = Some 1711843200000"
  "shiftDate london (Some 1711843200000) (- 1) = Some 1711756800000"
  by (simp_all add: host_eval london_def)

lemma london_keys:
  "todayKey london (Some 1711497600000) = Inr ''2024-03-27''"
  "todayKey london (Some 1711584000000) = Inr ''2024-03-28''"
  "todayKey london (Some 1711670400000) = Inr ''2024-03-29''"
  "todayKey london (Some 1711756800000) = Inr ''2024-03-30''"
  "todayKey london (Some 1711843200000) = Inr ''2024-03-31''"
  "todayKey london (Some 1711926000000) = Inr ''2024-03-31''"
  "todayKey london (Some 1712012400000) = Inr ''2024-04-01''"
  "todayKey london (Some 1712059200000) = Inr ''2024-04-01''"
  by (simp_all add: todayKey_eq host_eval london_def isoDate_spring)

lemma london_week:
  "getWeekSeries london plainLabel [] (Some 1712059200000)
     = Inr [\<lparr> key = ''2024-03-27'', label = ''day'', value = 0 \<rparr>,
            \<lparr> key = ''2024-03-28'', label = ''day'', value = 0 \<rparr>,
            \<lparr> key = ''2024-03-29'', label = ''day'', value = 0 \<rparr>,
            \<lparr> key = ''2024-03-30'', label = ''day'', value = 0 \<rparr>,
            \<lparr> key = ''2024-03-31'', label = ''day'', value = 0 \<rparr>,
            \<lparr> key = ''2024-03-31'', label = ''day'', value = 0 \<rparr>,
            \<lparr> key = ''2024-04-01'', label = ''day'', value = 0 \<rparr>]"
  unfolding getWeekSeries_def london_midnights six weekLoop.simps
  by (simp add: london_days london_keys countOr0_def plainLabel_def)

lemma london_streak:
  "calculateStreak london [(''2024-04-01'', 1), (''2024-03-31'', 1)] (Some 1712059200000)
     = Some (Inr 3)"
proof -
  let ?stats = "[(''2024-04-01'', 1), (''2024-03-31'', 1 :: nat)]"
  have a: "streakLoop london ?stats (Some 1711756800000) n = Some (Inr n)" for n
    by (rule streakLoop_breaks [OF london_keys(4)]) simp
  have b: "streakLoop london ?stats (Some 1711843200000) n = Some (Inr (n + 1))" for n
    using streakLoop_continues [OF london_keys(5), of ?stats n] a [of "n + 1"]
    by (simp add: london_days)
  have c: "streakLoop london ?stats (Some 1711926000000) n = Some (Inr (n + 1 + 1))" for n
    using streakLoop_continues [OF london_keys(6), of ?stats n] b [of "n + 1"]
    by (simp add: london_days)
  have d: "streakLoop london ?stats (Some 1712012400000) n = Some (Inr (n + 1 + 1 + 1))" for n
    using streakLoop_continues [OF london_keys(7), of ?stats n] c [of "n + 1"]
    by (simp add: london_days)
  show ?thesis
    using d [of 0] by (simp add: calculateStreak_def london_midnights)
qed

subsection \<open>A host in Apia, across the skipped day\<close>

lemma apia_midnights:
  "setHours0 apia (Some 1325282400000) = Some 1325239200000"
  "shiftDate apia (Some 1325239200000) (- 1) = Some 1325239200000"
  "todayKey apia (Some 1325239200000) = Inr ''2011-12-30''"
  "todayKey apia (Some 1325282400000) = Inr ''2011-12-30''"
  by (simp_all add: todayKey_eq host_eval apia_def isoDate_apia)

lemma apia_stays: "UTC apia (LocalTime apia 1325239200000 - msPerDay) = 1325239200000"
  by (simp add: UTC_def LocalTime_def apia_def msPerDay_def)

lemma apia_streak:
  "calculateStreak apia [(''2011-12-30'', 1)] (Some 1325282400000) = None"
  unfolding calculateStreak_def apia_midnights(1)
  by (rule streakLoop_stuck [OF apia_midnights(3) _ apia_midnights(2)]) simp

subsection \<open>The claims on the weekly series and the streak\<close>

text \<open>
  Claim C5 says that the last of the seven points carries the day key of the reference date
  and the count stored for that day. The day key is meant to be the local calendar date, but
  \<open>todayKey\<close> prints the UTC date of the local midnight, which east of Greenwich is the
  date of the day before. On a host nine hours ahead of UTC, with the reference at noon of
  local 2024-01-03, the week runs from 2023-12-27 to 2024-01-02: the last key is 2024-01-02
  and the last count is 1, the count of the day before, where the day of the reference has
  count 0. On a host in London, with the reference at 13:00 of local 2024-04-02, the key
  2024-03-31 comes twice and the last key is 2024-04-01. On a host on UTC the last key is
  the date of the reference.
\<close>

theorem getWeekSeries_last_key:
  "getWeekSeries tokyo plainLabel exampleStats (Some 1704250800000)
     = Inr [\<lparr> key = ''2023-12-27'', label = ''day'', value = 0 \<rparr>,
            \<lparr> key = ''2023-12-28'', label = ''day'', value = 0 \<rparr>,
            \<lparr> key = ''2023-12-29'', label = ''day'', value = 0 \<rparr>,
            \<lparr> key = ''2023-12-30'', label = ''day'', value = 0 \<rparr>,
            \<lparr> key = ''2023-12-31'', label = ''day'', value = 0 \<rparr>,
            \<lparr> key = ''2024-01-01'', label = ''day'', value = 2 \<rparr>,
            \<lparr> key = ''2024-01-02'', label = ''day'', value = 1 \<rparr>]
   \<and> localCalendarDate tokyo 1704250800000 = ''2024-01-03''
   \<and> countOr0 exampleStats ''2024-01-03'' = 0
   \<and> getWeekSeries london plainLabel [] (Some 1712059200000)
     = Inr [\<lparr> key = ''2024-03-27'', label = ''day'', value = 0 \<rparr>,
            \<lparr> key = ''2024-03-28'', label = ''day'', value = 0 \<rparr>,
            \<lparr> key = ''2024-03-29'', label = ''day'', value = 0 \<rparr>,
            \<lparr> key = ''2024-03-30'', label = ''day'', value = 0 \<rparr>,
            \<lparr> key = ''2024-03-31'', label = ''day'', value = 0 \<rparr>,
            \<lparr> key = ''2024-03-31'', label = ''day'', value = 0 \<rparr>,
            \<lparr> key = ''2024-04-01'', label = ''day'', value = 0 \<rparr>]
   \<and> localCalendarDate london 1712059200000 = ''2024-04-02''
   \<and> getWeekSeries utc plainLabel exampleStats (Some 1704283200000)
     = Inr [\<lparr> key = ''2023-12-28'', label = ''day'', value = 0 \<rparr>,
            \<lparr> key = ''2023-12-29'', label = ''day'', value = 0 \<rparr>,
            \<lparr> key = ''2023-12-30'', label = ''day'', value = 0 \<rparr>,
            \<lparr> key = ''2023-12-31'', label = ''day'', value = 0 \<rparr>,
            \<lparr> key = ''2024-01-01'', label = ''day'', value = 2 \<rparr>,
            \<lparr> key = ''2024-01-02'', label = ''day'', value = 1 \<rparr>,
            \<lparr> key = ''2024-01-03'', label = ''day'', value = 0 \<rparr>]
   \<and> localCalendarDate utc 1704283200000 = ''2024-01-03''"
  by (simp only: tokyo_week london_week utc_week local_dates example_counts simp_thms)

text \<open>
  Claim C6 says that the streak counts the days with a count that end at the reference date,
  so that with the counts 2024-01-01: 2, 2024-01-02: 1, 2024-01-03: 0 it is 0 at reference
  2024-01-03 and 2 at reference 2024-01-02. The walk looks the days up by \<open>todayKey\<close>,
  which prints the UTC date of the local midnight and not the local date. On a host nine
  hours ahead of UTC, a reference at noon of local 2024-01-03 has the key 2024-01-02 and the
  streak is 2, not 0; a reference at noon of local 2024-01-02 has the key 2024-01-01 and the
  streak is 1, not 2. On a host in London, with counts on 2024-04-01 and 2024-03-31 only
  and the reference at 13:00 of local 2024-04-02, a day without a count, the streak is 3: the
  key 2024-03-31 is met twice. On a host on UTC the streak at reference 2024-01-03 is 0.
\<close>

theorem calculateStreak_wrong_day:
  "calculateStreak tokyo exampleStats (Some 1704250800000) = Some (Inr 2)
   \<and> localCalendarDate tokyo 1704250800000 = ''2024-01-03''
   \<and> todayKey tokyo (Some 1704250800000) = Inr ''2024-01-02''
   \<and> calculateStreak tokyo exampleStats (Some 1704164400000) = Some (Inr 1)
   \<and> localCalendarDate tokyo 1704164400000 = ''2024-01-02''
   \<and> todayKey tokyo (Some 1704164400000) = Inr ''2024-01-01''
   \<and> calculateStreak london [(''2024-04-01'', 1), (''2024-03-31'', 1)] (Some 1712059200000)
       = Some (Inr 3)
   \<and> localCalendarDate london 1712059200000 = ''2024-04-02''
   \<and> calculateStreak utc exampleStats (Some 1704283200000) = Some (Inr 0)
   \<and> localCalendarDate utc 1704283200000 = ''2024-01-03''"
  by (simp only: tokyo_streak london_streak utc_streak local_dates tokyo_keys simp_thms)

text \<open>
  Claim C10 says that the streak computation terminates for every finite mapping and every
  reference date. The loop steps back with \<open>end.setDate(end.getDate() - 1)\<close> and never
  checks that the date has moved. On a host in Apia, whose calendar has no 2011-12-30, with
  the reference at noon of local 2011-12-31: the local midnight of that day has the key
  2011-12-30 (the key under which the program counts a work phase completed that day); the
  step back asks for local 2011-12-30 00:00, a time that was skipped, and gives the instant
  it started from. With a count under that key every round finds the same key and the same
  count: the computation does not return.
\<close>

theorem calculateStreak_never_returns:
  "calculateStreak apia [(''2011-12-30'', 1)] (Some 1325282400000) = None
   \<and> localCalendarDate apia 1325282400000 = ''2011-12-31''
   \<and> todayKey apia (Some 1325282400000) = Inr ''2011-12-30''
   \<and> setHours0 apia (Some 1325282400000) = Some 1325239200000
   \<and> shiftDate apia (Some 1325239200000) (- 1) = Some 1325239200000"
  by (simp only: apia_streak local_dates apia_midnights simp_thms)

section \<open>Verification: CSV export\<close>

subsection \<open>Sorting the entries\<close>

lemma collates_codeUnitCompare: "collatesDayKeys codeUnitCompare"
  by (auto simp: collatesDayKeys_def codeUnitCompare_def)

lemma insertEntry_insort:
  assumes "collatesDayKeys cmp" and "isDayKey (fst x)" and "\<forall>y \<in> set ys. isDayKey (fst y)"
  shows "insertEntry cmp x ys = insort_key fst x ys"
  using assms(3)
proof (induction ys)
  case Nil
  show ?case by simp
next
  case (Cons y ys)
  from Cons.prems have "isDayKey (fst y)" by simp
  with assms(1,2) have "cmp (fst x) (fst y) \<le> 0 \<longleftrightarrow> fst x \<le> fst y"
    by (simp add: collatesDayKeys_def)
  with Cons show ?case by simp
qed

lemma sortEntries_sort_key:
  assumes "collatesDayKeys cmp" and "\<forall>x \<in> set xs. isDayKey (fst x)"
  shows "sortEntries cmp xs = sort_key fst xs"
  using assms(2)
proof (induction xs)
  case Nil
  show ?case by (simp add: sortEntries_def)
next
  case (Cons x xs)
  then have ih: "sortEntries cmp xs = sort_key fst xs" by simp
  have "sortEntries cmp (x # xs) = insertEntry cmp x (sortEntries cmp xs)"
    by (simp add: sortEntries_def)
  also have "\<dots> = insort_key fst x (sort_key fst xs)"
    unfolding ih using Cons.prems by (intro insertEntry_insort [OF assms(1)]) simp_all
  finally show ?case by (simp add: sort_key_def)
qed

lemma filter_key_distinct:
  "distinct (map fst xs) \<Longrightarrow> k \<in> set xs \<Longrightarrow> filter (\<lambda>x. fst k = fst x) xs = [k]"
proof (induction xs)
  case Nil
  then show ?case by simp
next
  case (Cons x xs)
  show ?case
  proof (cases "k = x")
    case True
    have "filter (\<lambda>y. fst x = fst y) xs = []"
      using Cons.prems(1) by (auto simp: filter_empty_conv)
    with True show ?thesis by simp
  next
    case False
    with Cons.prems have k: "k \<in> set xs" by simp
    with Cons.prems(1) have "fst k \<noteq> fst x" by (auto simp: image_iff)
    with Cons.IH k Cons.prems(1) show ?thesis by simp
  qed
qed

lemma sort_key_order_free:
  assumes "distinct (map fst xs)" and "distinct (map fst ys)" and "set ys = set xs"
  shows "sort_key fst ys = sort_key fst xs"
proof -
  have dx: "distinct xs" and dy: "distinct ys"
    using assms(1,2) by (simp_all add: distinct_map)
  with assms(3) have m: "mset ys = mset xs"
    by (simp add: set_eq_iff_mset_eq_distinct)
  show ?thesis
  proof (rule properties_for_sort_key)
    show "mset (sort_key fst xs) = mset ys" by (simp add: m)
    show "sorted (map fst (sort_key fst xs))" by simp
    fix k assume "k \<in> set (sort_key fst xs)"
    then have kx: "k \<in> set xs" by simp
    with assms(3) have ky: "k \<in> set ys" by simp
    have "filter (\<lambda>x. fst k = fst x) (sort_key fst xs) = [k]"
      using assms(1) kx by (intro filter_key_distinct) (simp_all add: distinct_map)
    moreover have "filter (\<lambda>x. fst k = fst x) ys = [k]"
      using assms(2) ky by (rule filter_key_distinct)
    ultimately show "filter (\<lambda>x. fst k = fst x) (sort_key fst xs) = filter (\<lambda>x. fst k = fst x) ys"
      by simp
  qed
qed

lemma ascending_sort_key:
  assumes "distinct (map fst xs)"
  shows "sorted_wrt (\<lambda>a b. fst a < fst b) (sort_key fst xs)"
proof -
  have "sorted (map fst (sort_key fst xs))" by simp
  moreover have "distinct (map fst (sort_key fst xs))"
    using assms by (simp add: distinct_map)
  ultimately have "sorted_wrt (<) (map fst (sort_key fst xs))"
    by (simp add: strict_sorted_iff)
  then show ?thesis by (simp add: sorted_wrt_map)
qed

lemma map_of_sort_key:
  assumes "distinct (map fst xs)"
  shows "map_of (sort_key fst xs) = map_of xs"
proof -
  have "distinct (map fst (sort_key fst xs))"
    using assms by (simp add: distinct_map)
  with assms show ?thesis by (simp add: map_of_inject_set)
qed

subsection \<open>Reading numbers and lines back\<close>

lemma readNat_snoc: "readNat (s @ [c]) = 10 * readNat s + (of_char c - 48)"
  by (simp add: readNat_def)

lemma readNat_showNat: "readNat (showNat n) = n"
proof (induction n rule: showNat.induct)
  case (1 n)
  show ?case
  proof (cases "n < 10")
    case True
    then have "showNat n = [] @ [digitChar n]" by (simp add: showNat.simps)
    then have "readNat (showNat n) = 10 * readNat [] + (of_char (digitChar n) - 48)"
      by (simp only: readNat_snoc)
    with True show ?thesis by (simp add: of_char_digitChar readNat_def)
  next
    case False
    then have e: "showNat n = showNat (n div 10) @ [digitChar (n mod 10)]"
      by (subst showNat.simps) simp
    have "readNat (showNat n) = 10 * readNat (showNat (n div 10)) + (of_char (digitChar (n mod 10)) - 48)"
      unfolding e by (rule readNat_snoc)
    with 1 [OF False] show ?thesis by (simp add: of_char_digitChar)
  qed
qed

lemma splitOn_plain: "sep \<notin> set l \<Longrightarrow> splitOn sep l = [l]"
  by (induction l) auto

lemma splitOn_line: "sep \<notin> set l \<Longrightarrow> splitOn sep (l @ sep # rest) = l # splitOn sep rest"
  by (induction l) auto

lemma splitOn_joinWith:
  assumes "ls \<noteq> []" and "\<forall>l \<in> set ls. sep \<notin> set l"
  shows "splitOn sep (joinWith [sep] ls) = ls"
  using assms
proof (induction "[sep]" ls rule: joinWith.induct)
  case 1
  then show ?case by simp
next
  case (2 p)
  then show ?case by (simp add: splitOn_plain)
next
  case (3 p q ps)
  then show ?case by (simp add: splitOn_line)
qed

lemma isDigit_plain: "isDigit c \<Longrightarrow> c \<noteq> CHR '','' \<and> c \<noteq> newline"
  by (auto simp: isDigit_def newline_def)

lemma showNat_plain: "CHR '','' \<notin> set (showNat n)" "newline \<notin> set (showNat n)"
  using showNat_digits [of n] isDigit_plain by (auto simp: list_all_iff)

lemma row_no_newline: "plainKey k \<Longrightarrow> newline \<notin> set (row (k, c))"
  using showNat_plain(2) [of c] by (simp add: row_def plainKey_def newline_def)

lemma readRow_row: "plainKey k \<Longrightarrow> readRow (row (k, c)) = (k, c)"
proof -
  assume "plainKey k"
  then have k: "\<forall>x \<in> set k. x \<noteq> CHR '',''" by (auto simp: plainKey_def)
  have "takeWhile (\<lambda>c. c \<noteq> CHR '','') (k @ CHR '','' # showNat c) = k"
    using k by (simp add: takeWhile_append2)
  moreover have "dropWhile (\<lambda>c. c \<noteq> CHR '','') (k @ CHR '','' # showNat c) = CHR '','' # showNat c"
    using k by (simp add: dropWhile_append2)
  ultimately show ?thesis
    by (simp add: readRow_def row_def readNat_showNat)
qed

lemma createCsv_eq:
  "createCsv cmp stats
     = joinWith [newline] (''Date,Pomodoros Completed'' # map row (sortEntries cmp (byDay stats)))"
  by (simp add: createCsv_def Let_def)

lemma readCsv_lines:
  assumes "\<forall>e \<in> set es. plainKey (fst e)"
  shows "readCsv (joinWith [newline] (''Date,Pomodoros Completed'' # map row es)) = es"
proof -
  have h: "newline \<notin> set ''Date,Pomodoros Completed''"
    by (simp add: newline_def)
  have "\<forall>l \<in> set (''Date,Pomodoros Completed'' # map row es). newline \<notin> set l"
  proof
    fix l assume "l \<in> set (''Date,Pomodoros Completed'' # map row es)"
    then consider "l = ''Date,Pomodoros Completed''" | e where "e \<in> set es" "l = row e"
      by auto
    then show "newline \<notin> set l"
    proof cases
      case 1
      with h show ?thesis by simp
    next
      case 2
      with assms row_no_newline [of "fst e" "snd e"] show ?thesis by simp
    qed
  qed
  then have "splitOn newline (joinWith [newline] (''Date,Pomodoros Completed'' # map row es))
      = ''Date,Pomodoros Completed'' # map row es"
    by (intro splitOn_joinWith) simp_all
  then have "readCsv (joinWith [newline] (''Date,Pomodoros Completed'' # map row es))
      = map (readRow \<circ> row) es"
    by (simp add: readCsv_def)
  also have "\<dots> = map id es"
  proof (rule map_cong [OF refl])
    fix e assume "e \<in> set es"
    with assms readRow_row [of "fst e" "snd e"] show "(readRow \<circ> row) e = id e" by simp
  qed
  finally show ?thesis by simp
qed

lemma plainKey_isDayKey:
  assumes "isDayKey k"
  shows "plainKey k"
proof -
  have "c \<noteq> CHR '','' \<and> c \<noteq> newline" if "c \<in> set k" for c
  proof (cases "isDigit c")
    case True
    then show ?thesis by (rule isDigit_plain)
  next
    case False
    from that have "(if isDigit c then CHR ''9'' else c)
        \<in> set (map (\<lambda>c. if isDigit c then CHR ''9'' else c) k)"
      by (rule imageI [of c "set k" "\<lambda>c. if isDigit c then CHR ''9'' else c", folded set_map])
    with assms False have "c \<in> set ''9999-99-99''" by (simp add: isDayKey_def)
    then show ?thesis by (auto simp: newline_def)
  qed
  then show ?thesis by (auto simp: plainKey_def)
qed

subsection \<open>The order of day keys is the order of the dates\<close>

lemma readNat_Cons:
  "readNat (x # xs) = (of_char x - 48) * 10 ^ length xs + readNat xs"
proof (induction xs rule: rev_induct)
  case Nil
  show ?case by (simp add: readNat_def)
next
  case (snoc c xs)
  have "readNat (x # xs @ [c]) = 10 * readNat (x # xs) + (of_char c - 48)"
    using readNat_snoc [of "x # xs" c] by simp
  with snoc show ?case by (simp add: readNat_snoc algebra_simps)
qed

lemma readNat_bound: "list_all isDigit xs \<Longrightarrow> readNat xs < 10 ^ length xs"
proof (induction xs)
  case Nil
  show ?case by (simp add: readNat_def)
next
  case (Cons x xs)
  from Cons.prems have "isDigit x" by simp
  then have "(of_char x :: nat) - 48 \<le> 9"
    unfolding isDigit_def by linarith
  moreover from Cons have "readNat xs < 10 ^ length xs" by simp
  ultimately have "(of_char x :: nat) - 48 \<le> 9" and "readNat xs < 10 ^ length xs"
    by blast+
  then have "((of_char x :: nat) - 48) * 10 ^ length xs + readNat xs
      < 9 * 10 ^ length xs + 10 ^ length xs"
    by (intro add_le_less_mono mult_right_mono) simp_all
  then show ?case by (simp add: readNat_Cons)
qed

lemma digits_less:
  assumes "length xs = length ys" and "list_all isDigit xs" and "list_all isDigit ys"
  shows "xs < ys \<longleftrightarrow> readNat xs < readNat ys"
  using assms
proof (induction xs ys rule: list_induct2)
  case Nil
  show ?case by simp
next
  case (Cons x xs y ys)
  let ?p = "(10::nat) ^ length ys"
  let ?a = "(of_char x :: nat) - 48" and ?b = "(of_char y :: nat) - 48"
  from Cons.prems have dx: "isDigit x" and dy: "isDigit y" by simp_all
  have lx: "readNat xs < ?p" and ly: "readNat ys < ?p"
    using Cons.prems Cons.hyps readNat_bound [of xs] readNat_bound [of ys] by simp_all
  have ih: "xs < ys \<longleftrightarrow> readNat xs < readNat ys"
    using Cons by simp
  have "?a = ?b \<Longrightarrow> (of_char x :: nat) = of_char y"
    using dx dy unfolding isDigit_def by linarith
  then have "?a = ?b \<Longrightarrow> x = y" by (simp only: of_char_eq_iff)
  moreover have "x < y \<longleftrightarrow> ?a < ?b"
    using dx dy unfolding isDigit_def less_char_def by linarith
  ultimately have v: "x < y \<longleftrightarrow> ?a < ?b" "x = y \<longleftrightarrow> ?a = ?b"
    by auto
  have e: "readNat (x # xs) = ?a * ?p + readNat xs" "readNat (y # ys) = ?b * ?p + readNat ys"
    using Cons.hyps by (simp_all add: readNat_Cons)
  consider "?a < ?b" | "?a = ?b" | "?b < ?a" by linarith
  then show ?case
  proof cases
    case 1
    then have "?a + 1 \<le> ?b" by simp
    then have "(?a + 1) * ?p \<le> ?b * ?p" by (rule mult_right_mono) simp
    with lx have "readNat (x # xs) < readNat (y # ys)" by (simp add: e)
    with 1 v show ?thesis by simp
  next
    case 2
    with v have "x = y" by simp
    then have l: "x # xs < y # ys \<longleftrightarrow> xs < ys" by simp
    have r: "readNat (x # xs) < readNat (y # ys) \<longleftrightarrow> readNat xs < readNat ys"
      unfolding e using 2 by simp
    show ?thesis by (simp only: l r ih)
  next
    case 3
    then have "?b + 1 \<le> ?a" by simp
    then have "(?b + 1) * ?p \<le> ?a * ?p" by (rule mult_right_mono) simp
    with ly have "readNat (y # ys) < readNat (x # xs)" by (simp add: e)
    with 3 v show ?thesis by auto
  qed
qed

lemma isDayKey_shape:
  assumes "isDayKey k"
  obtains y m d where "k = y @ ''-'' @ m @ ''-'' @ d" "length y = 4" "length m = 2" "length d = 2"
    "list_all isDigit y" "list_all isDigit m" "list_all isDigit d"
proof -
  define f where "f = (\<lambda>c. if isDigit c then CHR ''9'' else c)"
  from assms have m: "map f k = ''9999-99-99''" by (simp add: isDayKey_def f_def)
  then have "length k = 10" using length_map [of f k] by simp
  then obtain a0 a1 a2 a3 a4 a5 a6 a7 a8 a9 where k: "k = [a0, a1, a2, a3, a4, a5, a6, a7, a8, a9]"
    by (auto simp: length_Suc_conv eval_nat_numeral)
  have nine: "isDigit (CHR ''9'')" and hyphen: "\<not> isDigit (CHR ''-'')"
    by (simp_all add: isDigit_def)
  have dg: "isDigit c" if "f c = CHR ''9''" for c
  proof (cases "isDigit c")
    case True
    then show ?thesis .
  next
    case False
    with that have "c = CHR ''9''" by (simp add: f_def)
    with nine show ?thesis by simp
  qed
  have hy: "c = CHR ''-''" if "f c = CHR ''-''" for c
  proof (cases "isDigit c")
    case True
    with that show ?thesis by (simp add: f_def)
  next
    case False
    with that show ?thesis by (simp add: f_def)
  qed
  from m have e: "f a0 = CHR ''9''" "f a1 = CHR ''9''" "f a2 = CHR ''9''" "f a3 = CHR ''9''"
    "f a4 = CHR ''-''" "f a5 = CHR ''9''" "f a6 = CHR ''9''" "f a7 = CHR ''-''"
    "f a8 = CHR ''9''" "f a9 = CHR ''9''"
    unfolding k by simp_all
  have "k = [a0, a1, a2, a3] @ ''-'' @ [a5, a6] @ ''-'' @ [a8, a9]"
    using hy [OF e(5)] hy [OF e(8)] by (simp add: k)
  moreover have "list_all isDigit [a0, a1, a2, a3]" "list_all isDigit [a5, a6]"
    "list_all isDigit [a8, a9]"
    using dg [OF e(1)] dg [OF e(2)] dg [OF e(3)] dg [OF e(4)] dg [OF e(6)] dg [OF e(7)]
      dg [OF e(9)] dg [OF e(10)] by simp_all
  ultimately show thesis
    by (intro that [of "[a0, a1, a2, a3]" "[a5, a6]" "[a8, a9]"]) simp_all
qed

lemma dayKey_less:
  assumes "isDayKey a" and "isDayKey b"
  shows "a < b \<longleftrightarrow> readNat (filter isDigit a) < readNat (filter isDigit b)"
proof -
  obtain y m d where a: "a = y @ ''-'' @ m @ ''-'' @ d" "length y = 4" "length m = 2" "length d = 2"
    "list_all isDigit y" "list_all isDigit m" "list_all isDigit d"
    using assms(1) by (rule isDayKey_shape)
  obtain y' m' d' where b: "b = y' @ ''-'' @ m' @ ''-'' @ d'" "length y' = 4" "length m' = 2"
    "length d' = 2" "list_all isDigit y'" "list_all isDigit m'" "list_all isDigit d'"
    using assms(2) by (rule isDayKey_shape)
  have n: "\<not> isDigit (CHR ''-'')" by (simp add: isDigit_def)
  have fa: "filter isDigit a = y @ m @ d" and fb: "filter isDigit b = y' @ m' @ d'"
    using a b n by (simp_all add: list_all_iff filter_id_conv)
  have app: "u @ v < u' @ v' \<longleftrightarrow> u < u' \<or> u = u' \<and> v < v'" if "length u = length u'"
    for u u' v v' :: string
    using that by (induction u u' rule: list_induct2) auto
  have "a < b \<longleftrightarrow> y @ m @ d < y' @ m' @ d'"
    using a(2-4) b(2-4) unfolding a(1) b(1) by (simp add: app)
  also have "\<dots> \<longleftrightarrow> readNat (y @ m @ d) < readNat (y' @ m' @ d')"
    using a b by (intro digits_less) simp_all
  finally show ?thesis by (simp only: fa fb)
qed

text \<open>
  Claim C7. The statistics map day keys (\<open>YYYY-MM-DD\<close>, distinct as the keys of an object
  are) to counts, and the host's \<open>localeCompare\<close> orders such keys as their characters
  do. Then the export is the header line followed by one \<open>date,count\<close> line per stored
  day, in strictly ascending order of the keys, which is the order of the dates (of the
  numbers \<open>YYYYMMDD\<close>); it holds every entry once; two mappings with the same entries in a
  different insertion order give the same text; reading the text back gives the entries in
  ascending order, so the count of every day is recovered. For
  \<open>2024-01-02: 3, 2024-01-01: 1\<close> the export is the header, \<open>2024-01-01,1\<close> and
  \<open>2024-01-02,3\<close>.
\<close>

theorem createCsv_export:
  assumes "collatesDayKeys localeCompare"
    and "distinct (map fst (byDay stats))"
    and "list_all isDayKey (map fst (byDay stats))"
  shows "createCsv localeCompare stats
       = joinWith [newline]
           (''Date,Pomodoros Completed'' # map row (sortEntries localeCompare (byDay stats)))
     \<and> mset (sortEntries localeCompare (byDay stats)) = mset (byDay stats)
     \<and> sorted_wrt (\<lambda>a b. fst a < fst b) (sortEntries localeCompare (byDay stats))
     \<and> sorted_wrt (\<lambda>a b. readNat (filter isDigit (fst a)) < readNat (filter isDigit (fst b)))
           (sortEntries localeCompare (byDay stats))
     \<and> (\<forall>other. distinct (map fst (byDay other)) \<and> set (byDay other) = set (byDay stats)
          \<longrightarrow> createCsv localeCompare other = createCsv localeCompare stats)
     \<and> readCsv (createCsv localeCompare stats) = sortEntries localeCompare (byDay stats)
     \<and> map_of (readCsv (createCsv localeCompare stats)) = map_of (byDay stats)
     \<and> createCsv localeCompare
           \<lparr> byDay = [(''2024-01-02'', 3), (''2024-01-01'', 1)], history = h \<rparr>
         = ''Date,Pomodoros Completed'' @ [newline] @ ''2024-01-01,1'' @ [newline] @ ''2024-01-02,3''"
proof (intro conjI allI impI)
  have k: "\<forall>x \<in> set (byDay stats). isDayKey (fst x)"
    using assms(3) by (simp add: list_all_iff)
  have s: "sortEntries localeCompare (byDay stats) = sort_key fst (byDay stats)"
    using assms(1) k by (rule sortEntries_sort_key)
  show "createCsv localeCompare stats
       = joinWith [newline]
           (''Date,Pomodoros Completed'' # map row (sortEntries localeCompare (byDay stats)))"
    by (rule createCsv_eq)
  show "mset (sortEntries localeCompare (byDay stats)) = mset (byDay stats)"
    by (simp add: s)
  show a: "sorted_wrt (\<lambda>a b. fst a < fst b) (sortEntries localeCompare (byDay stats))"
    unfolding s using assms(2) by (rule ascending_sort_key)
  show "sorted_wrt (\<lambda>a b. readNat (filter isDigit (fst a)) < readNat (filter isDigit (fst b)))
           (sortEntries localeCompare (byDay stats))"
  proof (rule sorted_wrt_mono_rel [OF _ a])
    fix x y
    assume "x \<in> set (sortEntries localeCompare (byDay stats))"
      and "y \<in> set (sortEntries localeCompare (byDay stats))" and l: "fst x < fst y"
    with k have "isDayKey (fst x)" "isDayKey (fst y)" by (simp_all add: s)
    from dayKey_less [OF this] l
    show "readNat (filter isDigit (fst x)) < readNat (filter isDigit (fst y))" by simp
  qed
  show "createCsv localeCompare other = createCsv localeCompare stats"
    if o: "distinct (map fst (byDay other)) \<and> set (byDay other) = set (byDay stats)" for other
  proof -
    from o k have "\<forall>x \<in> set (byDay other). isDayKey (fst x)" by simp
    with assms(1) have "sortEntries localeCompare (byDay other) = sort_key fst (byDay other)"
      by (rule sortEntries_sort_key)
    also have "\<dots> = sort_key fst (byDay stats)"
      using o by (intro sort_key_order_free [OF assms(2)]) simp_all
    finally have "sortEntries localeCompare (byDay other) = sortEntries localeCompare (byDay stats)"
      by (simp only: s)
    then show ?thesis by (simp only: createCsv_eq)
  qed
  have "\<forall>e \<in> set (sort_key fst (byDay stats)). plainKey (fst e)"
    using k plainKey_isDayKey by simp
  then show r: "readCsv (createCsv localeCompare stats) = sortEntries localeCompare (byDay stats)"
    unfolding createCsv_eq s by (rule readCsv_lines)
  show "map_of (readCsv (createCsv localeCompare stats)) = map_of (byDay stats)"
    using assms(2) by (simp add: r s map_of_sort_key)
  have "sortEntries localeCompare [(''2024-01-02'', 3), (''2024-01-01'', 1)]
      = sort_key fst [(''2024-01-02'', 3), (''2024-01-01'', 1 :: nat)]"
    using assms(1) by (rule sortEntries_sort_key) (simp add: isDayKey_def isDigit_def)
  then show "createCsv localeCompare
           \<lparr> byDay = [(''2024-01-02'', 3), (''2024-01-01'', 1)], history = h \<rparr>
         = ''Date,Pomodoros Completed'' @ [newline] @ ''2024-01-01,1'' @ [newline] @ ''2024-01-02,3''"
    by (simp add: createCsv_eq row_def showNat.simps digitChar_def)
qed

theorem createCsv_export_witness:
  "collatesDayKeys codeUnitCompare
   \<and> distinct (map fst (byDay \<lparr> byDay = [(''2024-01-02'', 3), (''2024-01-01'', 1)], history = [] \<rparr>))
   \<and> list_all isDayKey (map fst (byDay \<lparr> byDay = [(''2024-01-02'', 3), (''2024-01-01'', 1)], history = [] \<rparr>))
   \<and> readCsv (createCsv codeUnitCompare \<lparr> byDay = [(''2024-01-02'', 3), (''2024-01-01'', 1)], history = [] \<rparr>)
       = [(''2024-01-01'', 1), (''2024-01-02'', 3)]
   \<and> createCsv codeUnitCompare \<lparr> byDay = [(''2024-01-01'', 1), (''2024-01-02'', 3)], history = [] \<rparr>
       = createCsv codeUnitCompare \<lparr> byDay = [(''2024-01-02'', 3), (''2024-01-01'', 1)], history = [] \<rparr>"
proof -
  let ?s = "\<lparr> byDay = [(''2024-01-02'', 3), (''2024-01-01'', 1)], history = [] \<rparr>"
  let ?o = "\<lparr> byDay = [(''2024-01-01'', 1), (''2024-01-02'', 3)], history = [] \<rparr>"
  have c: "collatesDayKeys codeUnitCompare" by (rule collates_codeUnitCompare)
  have d: "distinct (map fst (byDay ?s))" by simp
  have p: "list_all isDayKey (map fst (byDay ?s))" by (simp add: isDayKey_def isDigit_def)
  have s: "sortEntries codeUnitCompare (byDay ?s) = [(''2024-01-01'', 1), (''2024-01-02'', 3)]"
    by (simp add: sortEntries_def codeUnitCompare_def)
  have o: "distinct (map fst (byDay ?o)) \<and> set (byDay ?o) = set (byDay ?s)" by auto
  note w = createCsv_export [OF c d p, of "[]"]
  have r: "readCsv (createCsv codeUnitCompare ?s) = sortEntries codeUnitCompare (byDay ?s)"
    using w by blast
  have "\<forall>other. distinct (map fst (byDay other)) \<and> set (byDay other) = set (byDay ?s)
          \<longrightarrow> createCsv codeUnitCompare other = createCsv codeUnitCompare ?s"
    using w by blast
  with o have e: "createCsv codeUnitCompare ?o = createCsv codeUnitCompare ?s" by blast
  from r s have "readCsv (createCsv codeUnitCompare ?s) = [(''2024-01-01'', 1), (''2024-01-02'', 3)]"
    by (rule trans)
  with c d p e show ?thesis by (intro conjI)
qed

end
